theory Spec2Isabelle
  imports Complex_Main "HOL-Library.Sublist"
begin

section \<open>Conventions of the embedding\<close>

text \<open>
  The Python sources under \<^verbatim>\<open>V1/backtest\<close> are embedded function by function.
  Python floats are read as real numbers: every arithmetic expression keeps the shape
  and the order it has in the source, and rounding is not modelled. Buffer capacities,
  buffer indices and element counts are natural numbers; the other integer
  configuration values (leverage, position limit, holding and cool-down bars) are
  integers. An exception is a value: a function that can raise returns
  \<open>py_error + 'a\<close>, with \<open>Inl\<close> for the exception that ends the call.
\<close>

datatype py_error = ValueError | ZeroDivisionError | IndexError

text \<open>Sequencing of two computations, the second one skipped when the first raises.\<close>

definition bind_res :: "py_error + 'a \<Rightarrow> ('a \<Rightarrow> py_error + 'b) \<Rightarrow> py_error + 'b" where
  "bind_res m f = (case m of Inl e \<Rightarrow> Inl e | Inr v \<Rightarrow> f v)"

text \<open>\<^verbatim>\<open>xs[i] = v\<close> on a Python list: IndexError outside the list.\<close>

definition set_item :: "'a list \<Rightarrow> nat \<Rightarrow> 'a \<Rightarrow> py_error + 'a list" where
  "set_item xs i v = (if i < length xs then Inr (xs[i := v]) else Inl IndexError)"

text \<open>
  The reads \<^verbatim>\<open>xs[i]\<close> for \<open>i\<close> running through a list of indices (a loop or a
  comprehension that only accumulates locally): IndexError as soon as one index is
  outside the list.
\<close>

definition get_items :: "'a list \<Rightarrow> nat list \<Rightarrow> py_error + 'a list" where
  "get_items xs idxs =
     (if list_all (\<lambda>i. i < length xs) idxs then Inr (map (\<lambda>i. xs ! i) idxs)
      else Inl IndexError)"

section \<open>config.py\<close>

datatype VolRegime = LOW | NORMAL | HIGH

datatype Signal = NONE | BUY | SELL | CLOSE_BUY | CLOSE_SELL

datatype PositionType = PT_BUY | PT_SELL

record EAConfig =
  kf_process_noise :: real
  kf_observ_noise :: real
  kf_conf_band :: real
  hurst_period :: nat
  hurst_threshold :: real
  vol_period :: nat
  vol_hist_period :: nat
  risk_per_trade :: real
  max_positions :: int
  max_daily_dd :: real
  max_spread_points :: real
  hurst_exit_threshold :: real
  trail_multiplier :: real
  min_hold_bars :: int
  slippage_points :: real
  close_cooldown :: int
  initial_equity :: real
  leverage :: int

record InstrumentConfig =
  symbol :: string
  digits :: int
  point :: real
  point_value :: real
  min_lot :: real
  max_lot :: real
  lot_step :: real
  spread_points :: real
  contract_size :: real

definition default_ea :: EAConfig where
  "default_ea = \<lparr> kf_process_noise = 0.01, kf_observ_noise = 1.0, kf_conf_band = 2.0,
     hurst_period = 200, hurst_threshold = 0.55, vol_period = 100, vol_hist_period = 500,
     risk_per_trade = 0.01, max_positions = 3, max_daily_dd = 0.03,
     max_spread_points = 30.0, hurst_exit_threshold = 0.40, trail_multiplier = 3.0,
     min_hold_bars = 5, slippage_points = 10.0, close_cooldown = 2,
     initial_equity = 10000.0, leverage = 100 \<rparr>"

definition EURUSD :: InstrumentConfig where
  "EURUSD = \<lparr> symbol = ''EURUSD'', digits = 5, point = 0.00001, point_value = 1.0,
     min_lot = 0.01, max_lot = 100.0, lot_step = 0.01, spread_points = 15.0,
     contract_size = 100000.0 \<rparr>"

section \<open>kalman\_filter.py\<close>

text \<open>
  The object's fields: the state vector \<^verbatim>\<open>_state\<close>, the covariance \<^verbatim>\<open>_P\<close>, the
  process noise \<^verbatim>\<open>_Q\<close> (each 2x2 matrix as its four entries), the observation
  noise \<^verbatim>\<open>_R\<close> and the flag \<^verbatim>\<open>_initialized\<close>.
\<close>

record KalmanFilter =
  state0 :: real
  state1 :: real
  P00 :: real
  P01 :: real
  P10 :: real
  P11 :: real
  Q00 :: real
  Q01 :: real
  Q10 :: real
  Q11 :: real
  R_obs :: real
  initialized :: bool

definition KalmanFilter_new :: KalmanFilter where
  "KalmanFilter_new = \<lparr> state0 = 0, state1 = 0, P00 = 1, P01 = 0, P10 = 0, P11 = 1,
     Q00 = 0.01, Q01 = 0, Q10 = 0, Q11 = 0.01, R_obs = 1, initialized = False \<rparr>"

definition kalman_init :: "KalmanFilter \<Rightarrow> real \<Rightarrow> real \<Rightarrow> KalmanFilter" where
  "kalman_init k process_noise observ_noise =
     k\<lparr> Q00 := process_noise, Q01 := 0, Q10 := 0, Q11 := process_noise,
        R_obs := observ_noise, initialized := False \<rparr>"

text \<open>The locals of \<^verbatim>\<open>update\<close> that the claims name, as functions of the object.\<close>

definition x_pred0 :: "KalmanFilter \<Rightarrow> real" where
  "x_pred0 k = state0 k + state1 k"

definition x_pred1 :: "KalmanFilter \<Rightarrow> real" where
  "x_pred1 k = state1 k"

definition P_pred00 :: "KalmanFilter \<Rightarrow> real" where
  "P_pred00 k = (P00 k + P10 k) + (P01 k + P11 k) + Q00 k"

definition P_pred01 :: "KalmanFilter \<Rightarrow> real" where
  "P_pred01 k = (P01 k + P11 k) + Q01 k"

definition P_pred10 :: "KalmanFilter \<Rightarrow> real" where
  "P_pred10 k = P10 k + P11 k + Q10 k"

definition P_pred11 :: "KalmanFilter \<Rightarrow> real" where
  "P_pred11 k = P11 k + Q11 k"

definition innovation :: "KalmanFilter \<Rightarrow> real \<Rightarrow> real" where
  "innovation k price = price - x_pred0 k"

definition innovation_cov :: "KalmanFilter \<Rightarrow> real" where
  "innovation_cov k = P_pred00 k + R_obs k"

text \<open>
  \<^verbatim>\<open>KalmanFilter.update\<close>. \<^verbatim>\<open>math.sqrt\<close> raises ValueError on a negative argument,
  and the float division by \<open>S\<close> raises ZeroDivisionError when \<open>S\<close> is zero.
\<close>

definition kalman_update :: "KalmanFilter \<Rightarrow> real \<Rightarrow> py_error + KalmanFilter" where
  "kalman_update k price =
     (if \<not> initialized k then
        (let price_scale = price * 0.01 in
         Inr (k\<lparr> state0 := price, state1 := 0,
                 P00 := price_scale * price_scale, P01 := 0, P10 := 0,
                 P11 := price_scale * price_scale * 0.01, initialized := True \<rparr>))
      else
        (let y = innovation k price; S = innovation_cov k in
         if S < 0 then Inl ValueError
         else
           (let innovation_sigma = sqrt S in
            if \<bar>y\<bar> > 3.0 * innovation_sigma then
              Inr (k\<lparr> state0 := x_pred0 k, state1 := x_pred1 k,
                      P00 := P_pred00 k, P01 := P_pred01 k,
                      P10 := P_pred10 k, P11 := P_pred11 k \<rparr>)
            else if S = 0 then Inl ZeroDivisionError
            else
              (let K0 = P_pred00 k / S; K1 = P_pred10 k / S in
               Inr (k\<lparr> state0 := x_pred0 k + K0 * y, state1 := x_pred1 k + K1 * y,
                       P00 := (1.0 - K0) * P_pred00 k,
                       P01 := (1.0 - K0) * P_pred01 k,
                       P10 := - K1 * P_pred00 k + P_pred10 k,
                       P11 := - K1 * P_pred01 k + P_pred11 k \<rparr>)))))"

definition get_level :: "KalmanFilter \<Rightarrow> real" where
  "get_level k = state0 k"

definition get_slope :: "KalmanFilter \<Rightarrow> real" where
  "get_slope k = state1 k"

definition get_estimation_error :: "KalmanFilter \<Rightarrow> real" where
  "get_estimation_error k = sqrt \<bar>P00 k\<bar>"

definition get_upper_band :: "KalmanFilter \<Rightarrow> real \<Rightarrow> real" where
  "get_upper_band k c = state0 k + c * get_estimation_error k"

definition get_lower_band :: "KalmanFilter \<Rightarrow> real \<Rightarrow> real" where
  "get_lower_band k c = state0 k - c * get_estimation_error k"

definition is_initialized :: "KalmanFilter \<Rightarrow> bool" where
  "is_initialized k = initialized k"

section \<open>hurst\_exponent.py\<close>

text \<open>\<^verbatim>\<open>math.log\<close> raises ValueError unless its argument is positive.\<close>

definition py_log :: "real \<Rightarrow> py_error + real" where
  "py_log x = (if x \<le> 0 then Inl ValueError else Inr (ln x))"

record HurstExponent =
  h_period :: nat
  h_returns :: "real list"
  h_head :: nat
  h_count :: nat
  h_hurst :: real

definition HurstExponent_new :: HurstExponent where
  "HurstExponent_new =
     \<lparr> h_period = 200, h_returns = [], h_head = 0, h_count = 0, h_hurst = 0.5 \<rparr>"

definition hurst_init :: "HurstExponent \<Rightarrow> nat \<Rightarrow> HurstExponent" where
  "hurst_init h period =
     h\<lparr> h_period := period, h_returns := replicate period 0, h_head := 0,
        h_count := 0, h_hurst := 0.5 \<rparr>"

text \<open>\<^verbatim>\<open>_linearize\<close>: the ring buffer in chronological order.\<close>

definition linearize :: "HurstExponent \<Rightarrow> py_error + real list" where
  "linearize h =
     (let data_len = min (h_count h) (h_period h) in
      if h_count h < h_period h then Inr (take data_len (h_returns h))
      else get_items (h_returns h)
             (map (\<lambda>i. (h_head h + i) mod h_period h) [0..<data_len]))"

text \<open>
  The third loop of \<^verbatim>\<open>_calc_rs\<close>: one step on the triple
  \<open>(cum_dev, max_cum, min_cum)\<close>.
\<close>

definition cum_step :: "real \<Rightarrow> real \<times> real \<times> real \<Rightarrow> real \<Rightarrow> real \<times> real \<times> real" where
  "cum_step mean acc d =
     (case acc of (cum_dev, max_cum, min_cum) \<Rightarrow>
        (let cum_dev' = cum_dev + (d - mean);
             max_cum' = (if cum_dev' > max_cum then cum_dev' else max_cum);
             min_cum' = (if cum_dev' < min_cum then cum_dev' else min_cum)
         in (cum_dev', max_cum', min_cum')))"

text \<open>
  \<^verbatim>\<open>_calc_rs(data, start, length)\<close>. The three loops read \<^verbatim>\<open>data[i]\<close> for
  \<open>i\<close> from \<open>start\<close> to \<open>start + length - 1\<close>, so the call raises IndexError exactly
  when that range leaves the list.
\<close>

definition calc_rs :: "real list \<Rightarrow> nat \<Rightarrow> nat \<Rightarrow> py_error + real" where
  "calc_rs data start len =
     (if len < 2 then Inr 0
      else if length data < start + len then Inl IndexError
      else
        (let seg = take len (drop start data);
             mean = foldl (+) 0 seg / real len;
             sum_sq = foldl (\<lambda>s d. s + (d - mean) * (d - mean)) 0 seg;
             sd = sqrt (sum_sq / real len)
         in if sd < 1 / 10 ^ 15 then Inr 0
            else
              (case foldl (cum_step mean) (0, - (10 ^ 30), 10 ^ 30) seg of
                 (cum_dev, max_cum, min_cum) \<Rightarrow> Inr ((max_cum - min_cum) / sd))))"

text \<open>The body of the loop over the segments: \<open>(sum_rs, valid_segs)\<close>.\<close>

definition seg_body ::
  "real list \<Rightarrow> nat \<Rightarrow> py_error + real \<times> nat \<Rightarrow> nat \<Rightarrow> py_error + real \<times> nat" where
  "seg_body lin n acc seg =
     (case acc of Inl e \<Rightarrow> Inl e
      | Inr (sum_rs, valid_segs) \<Rightarrow>
          (case calc_rs lin (seg * n) n of Inl e \<Rightarrow> Inl e
           | Inr rs \<Rightarrow>
               if rs > 0 then Inr (sum_rs + rs, valid_segs + 1)
               else Inr (sum_rs, valid_segs)))"

text \<open>
  The \<^verbatim>\<open>while n <= data_len // 2\<close> loop of \<^verbatim>\<open>_calculate_hurst\<close>, on the loop
  variables \<open>prev_n\<close>, \<open>n\<close>, \<open>log_n\<close> and \<open>log_rs\<close>. \<^verbatim>\<open>int(n * 1.5)\<close> truncates
  the product.
\<close>

function hurst_loop ::
  "real list \<Rightarrow> nat \<Rightarrow> nat \<Rightarrow> real list \<Rightarrow> real list \<Rightarrow> py_error + real list \<times> real list" where
  "hurst_loop lin prev_n n log_n log_rs =
     (if n \<le> length lin div 2 then
        (if n = prev_n then hurst_loop lin prev_n (n + 1) log_n log_rs
         else if n = 0 then Inl ZeroDivisionError
         else if length lin div n < 1 then Inr (log_n, log_rs)
         else
           (case foldl (seg_body lin n) (Inr (0, 0)) [0..<length lin div n] of
              Inl e \<Rightarrow> Inl e
            | Inr (sum_rs, valid_segs) \<Rightarrow>
                if valid_segs > 0 then
                  (case py_log (sum_rs / real valid_segs) of
                     Inl e \<Rightarrow> Inl e
                   | Inr l \<Rightarrow>
                       hurst_loop lin n (nat \<lfloor>real n * 1.5\<rfloor>)
                         (log_n @ [ln (real n)]) (log_rs @ [l]))
                else hurst_loop lin n (nat \<lfloor>real n * 1.5\<rfloor>) log_n log_rs))
      else Inr (log_n, log_rs))"
  by pat_completeness auto

termination
proof (relation "measure (\<lambda>(lin, prev_n, n, log_n, log_rs).
          2 * (length lin div 2 + 1 - n) + (if n = prev_n then 0 else 1))",
       goal_cases)
  case 1
  show ?case by simp
next
  case (2 lin prev_n n log_n log_rs)
  then show ?case by (auto split: if_splits)
next
  case (3 lin prev_n n log_n log_rs x2 x y x2a)
  have "real n \<le> real n * 1.5" by simp
  then have "int n \<le> \<lfloor>real n * 1.5\<rfloor>" by linarith
  then have "n \<le> nat \<lfloor>real n * 1.5\<rfloor>" by linarith
  with 3 show ?case by (auto split: if_splits)
next
  case (4 lin prev_n n log_n log_rs x2 x y)
  have "real n \<le> real n * 1.5" by simp
  then have "int n \<le> \<lfloor>real n * 1.5\<rfloor>" by linarith
  then have "n \<le> nat \<lfloor>real n * 1.5\<rfloor>" by linarith
  with 4 show ?case by (auto split: if_splits)
qed

declare hurst_loop.simps [simp del]

text \<open>The regression and the clamp that end \<^verbatim>\<open>_calculate_hurst\<close>.\<close>

definition reg_step ::
  "real \<times> real \<times> real \<times> real \<Rightarrow> real \<times> real \<Rightarrow> real \<times> real \<times> real \<times> real" where
  "reg_step acc xy =
     (case acc of (sum_x, sum_y, sum_xy, sum_x2) \<Rightarrow>
        (case xy of (x, y) \<Rightarrow> (sum_x + x, sum_y + y, sum_xy + x * y, sum_x2 + x * x)))"

definition regression :: "real list \<Rightarrow> real list \<Rightarrow> real" where
  "regression log_n log_rs =
     (let num_points = length log_n in
      if num_points < 2 then 0.5
      else
        (case foldl reg_step (0, 0, 0, 0) (zip log_n log_rs) of
           (sum_x, sum_y, sum_xy, sum_x2) \<Rightarrow>
             (let denom = real num_points * sum_x2 - sum_x * sum_x in
              if \<bar>denom\<bar> < 1 / 10 ^ 15 then 0.5
              else
                (let H = (real num_points * sum_xy - sum_x * sum_y) / denom
                 in max 0.0 (min 1.0 H)))))"

definition calculate_hurst :: "HurstExponent \<Rightarrow> py_error + real" where
  "calculate_hurst h =
     (case linearize h of Inl e \<Rightarrow> Inl e
      | Inr lin \<Rightarrow>
          if length lin < 20 then Inr 0.5
          else
            (case hurst_loop lin 0 8 [] [] of Inl e \<Rightarrow> Inl e
             | Inr (log_n, log_rs) \<Rightarrow> Inr (regression log_n log_rs)))"

text \<open>
  \<^verbatim>\<open>HurstExponent.update\<close>. In the branch of the full buffer the write comes before
  the modulus, which raises ZeroDivisionError for period 0.
\<close>

definition hurst_push :: "HurstExponent \<Rightarrow> real \<Rightarrow> py_error + HurstExponent" where
  "hurst_push h ret =
     (if h_count h < h_period h then
        bind_res (set_item (h_returns h) (h_count h) ret)
          (\<lambda>r. Inr (h\<lparr> h_returns := r, h_count := h_count h + 1 \<rparr>))
      else
        bind_res (set_item (h_returns h) (h_head h) ret)
          (\<lambda>r. if h_period h = 0 then Inl ZeroDivisionError
                else Inr (h\<lparr> h_returns := r,
                             h_head := (h_head h + 1) mod h_period h \<rparr>)))"

definition hurst_update :: "HurstExponent \<Rightarrow> real \<Rightarrow> real \<Rightarrow> py_error + HurstExponent" where
  "hurst_update h close prev_close =
     (if prev_close \<le> 0 \<or> close \<le> 0 then Inr h
      else
        bind_res (py_log (close / prev_close))
          (\<lambda>ret. bind_res (hurst_push h ret)
             (\<lambda>h'. if h_count h' \<ge> 20 then
                      bind_res (calculate_hurst h') (\<lambda>v. Inr (h'\<lparr> h_hurst := v \<rparr>))
                    else Inr h')))"

definition get_hurst :: "HurstExponent \<Rightarrow> real" where
  "get_hurst h = h_hurst h"

definition is_trending :: "HurstExponent \<Rightarrow> real \<Rightarrow> bool" where
  "is_trending h threshold = (h_hurst h > threshold)"

definition hurst_is_ready :: "HurstExponent \<Rightarrow> bool" where
  "hurst_is_ready h = (h_count h \<ge> 20)"

section \<open>volatility\_regime.py\<close>

record VolatilityRegime =
  v_period :: nat
  v_hist_period :: nat
  v_returns :: "real list"
  ret_head :: nat
  ret_count :: nat
  vol_history :: "real list"
  vol_head :: nat
  vol_count :: nat
  current_vol :: real
  percentile :: real

definition VolatilityRegime_new :: VolatilityRegime where
  "VolatilityRegime_new =
     \<lparr> v_period = 100, v_hist_period = 500, v_returns = [], ret_head = 0, ret_count = 0,
       vol_history = [], vol_head = 0, vol_count = 0, current_vol = 0, percentile = 0.5 \<rparr>"

definition vol_init :: "VolatilityRegime \<Rightarrow> nat \<Rightarrow> nat \<Rightarrow> VolatilityRegime" where
  "vol_init v period hist_period =
     v\<lparr> v_period := period, v_hist_period := hist_period,
        v_returns := replicate period 0, ret_head := 0, ret_count := 0,
        vol_history := replicate hist_period 0, vol_head := 0, vol_count := 0,
        current_vol := 0, percentile := 0.5 \<rparr>"

text \<open>The ring buffer write for the returns.\<close>

definition vol_push_return :: "VolatilityRegime \<Rightarrow> real \<Rightarrow> py_error + VolatilityRegime" where
  "vol_push_return v ret =
     (if ret_count v < v_period v then
        bind_res (set_item (v_returns v) (ret_count v) ret)
          (\<lambda>r. Inr (v\<lparr> v_returns := r, ret_count := ret_count v + 1 \<rparr>))
      else
        bind_res (set_item (v_returns v) (ret_head v) ret)
          (\<lambda>r. if v_period v = 0 then Inl ZeroDivisionError
                else Inr (v\<lparr> v_returns := r,
                             ret_head := (ret_head v + 1) mod v_period v \<rparr>)))"

text \<open>
  The realized volatility: the population standard deviation of the first
  \<open>min(ret_count, period)\<close> entries of the return buffer.
\<close>

definition vol_realized :: "VolatilityRegime \<Rightarrow> py_error + VolatilityRegime" where
  "vol_realized v =
     (if ret_count v \<ge> 2 then
        (let len = min (ret_count v) (v_period v) in
         bind_res (get_items (v_returns v) [0..<len])
           (\<lambda>xs. if len = 0 then Inl ZeroDivisionError
                  else
                    (let mean = foldl (+) 0 xs / real len;
                         sum_sq = foldl (\<lambda>s d. s + (d - mean) * (d - mean)) 0 xs
                     in Inr (v\<lparr> current_vol := sqrt (sum_sq / real len) \<rparr>))))
      else Inr v)"

text \<open>The ring buffer write for the volatility history.\<close>

definition vol_push_history :: "VolatilityRegime \<Rightarrow> py_error + VolatilityRegime" where
  "vol_push_history v =
     (if vol_count v < v_hist_period v then
        bind_res (set_item (vol_history v) (vol_count v) (current_vol v))
          (\<lambda>hs. Inr (v\<lparr> vol_history := hs, vol_count := vol_count v + 1 \<rparr>))
      else
        bind_res (set_item (vol_history v) (vol_head v) (current_vol v))
          (\<lambda>hs. if v_hist_period v = 0 then Inl ZeroDivisionError
                 else Inr (v\<lparr> vol_history := hs,
                              vol_head := (vol_head v + 1) mod v_hist_period v \<rparr>)))"

text \<open>The percentile rank, computed only once two history values are buffered.\<close>

definition vol_rank :: "VolatilityRegime \<Rightarrow> py_error + VolatilityRegime" where
  "vol_rank v =
     (if vol_count v \<ge> 2 then
        (let len = min (vol_count v) (v_hist_period v) in
         bind_res (get_items (vol_history v) [0..<len])
           (\<lambda>hs. let count_below = length (filter (\<lambda>h. h < current_vol v) hs) in
                  if len = 0 then Inl ZeroDivisionError
                  else Inr (v\<lparr> percentile := real count_below / real len \<rparr>)))
      else Inr v)"

definition vol_update :: "VolatilityRegime \<Rightarrow> real \<Rightarrow> real \<Rightarrow> py_error + VolatilityRegime" where
  "vol_update v close prev_close =
     (if prev_close \<le> 0 \<or> close \<le> 0 then Inr v
      else
        bind_res (py_log (close / prev_close))
          (\<lambda>ret. bind_res (vol_push_return v ret)
             (\<lambda>v1. bind_res (vol_realized v1)
                (\<lambda>v2. if current_vol v2 > 0 then
                         bind_res (vol_push_history v2) vol_rank
                       else Inr v2))))"

definition get_current_vol :: "VolatilityRegime \<Rightarrow> real" where
  "get_current_vol v = current_vol v"

definition get_percentile :: "VolatilityRegime \<Rightarrow> real" where
  "get_percentile v = percentile v"

definition get_regime :: "VolatilityRegime \<Rightarrow> VolRegime" where
  "get_regime v =
     (if percentile v < 0.25 then LOW
      else if percentile v > 0.75 then HIGH
      else NORMAL)"

definition vol_is_ready :: "VolatilityRegime \<Rightarrow> bool" where
  "vol_is_ready v = (ret_count v \<ge> v_period v \<and> vol_count v \<ge> 20)"

section \<open>signal\_engine.py\<close>

record SignalEngine =
  m_kalman :: KalmanFilter
  m_hurst :: HurstExponent
  m_vol_regime :: VolatilityRegime
  conf_band :: real
  se_hurst_threshold :: real
  se_hurst_exit_threshold :: real

definition SignalEngine_new :: SignalEngine where
  "SignalEngine_new =
     \<lparr> m_kalman = KalmanFilter_new, m_hurst = HurstExponent_new,
       m_vol_regime = VolatilityRegime_new, conf_band = 2.0,
       se_hurst_threshold = 0.55, se_hurst_exit_threshold = 0.40 \<rparr>"

definition se_init ::
  "SignalEngine \<Rightarrow> real \<Rightarrow> real \<Rightarrow> real \<Rightarrow> nat \<Rightarrow> real \<Rightarrow> nat \<Rightarrow> nat \<Rightarrow> real \<Rightarrow> SignalEngine" where
  "se_init se process_noise observ_noise band h_per h_thr v_per v_hist h_exit =
     se\<lparr> m_kalman := kalman_init (m_kalman se) process_noise observ_noise,
         m_hurst := hurst_init (m_hurst se) h_per,
         m_vol_regime := vol_init (m_vol_regime se) v_per v_hist,
         conf_band := band,
         se_hurst_threshold := h_thr,
         se_hurst_exit_threshold := h_exit \<rparr>"

definition on_new_bar :: "SignalEngine \<Rightarrow> real \<Rightarrow> real \<Rightarrow> py_error + SignalEngine" where
  "on_new_bar se close prev_close =
     bind_res (kalman_update (m_kalman se) close)
       (\<lambda>k. bind_res (hurst_update (m_hurst se) close prev_close)
          (\<lambda>h. bind_res (vol_update (m_vol_regime se) close prev_close)
             (\<lambda>v. Inr (se\<lparr> m_kalman := k, m_hurst := h, m_vol_regime := v \<rparr>))))"

definition get_entry_signal :: "SignalEngine \<Rightarrow> real \<Rightarrow> Signal" where
  "get_entry_signal se current_price =
     (if \<not> is_initialized (m_kalman se) \<or> \<not> hurst_is_ready (m_hurst se) then NONE
      else
        (let slope = get_slope (m_kalman se);
             hv = get_hurst (m_hurst se);
             upper_band = get_upper_band (m_kalman se) (conf_band se);
             lower_band = get_lower_band (m_kalman se) (conf_band se)
         in if slope > 0 \<and> hv > se_hurst_threshold se \<and> current_price > upper_band
            then BUY
            else if slope < 0 \<and> hv > se_hurst_threshold se \<and> current_price < lower_band
            then SELL
            else NONE))"

definition should_close_buy :: "SignalEngine \<Rightarrow> bool" where
  "should_close_buy se =
     (if \<not> is_initialized (m_kalman se) then False
      else get_slope (m_kalman se) < 0 \<and> get_hurst (m_hurst se) < se_hurst_exit_threshold se)"

definition should_close_sell :: "SignalEngine \<Rightarrow> bool" where
  "should_close_sell se =
     (if \<not> is_initialized (m_kalman se) then False
      else get_slope (m_kalman se) > 0 \<and> get_hurst (m_hurst se) < se_hurst_exit_threshold se)"

definition get_kalman_level :: "SignalEngine \<Rightarrow> real" where
  "get_kalman_level se = get_level (m_kalman se)"

definition se_estimation_error :: "SignalEngine \<Rightarrow> real" where
  "se_estimation_error se = get_estimation_error (m_kalman se)"

definition se_upper_band :: "SignalEngine \<Rightarrow> real" where
  "se_upper_band se = get_upper_band (m_kalman se) (conf_band se)"

definition se_lower_band :: "SignalEngine \<Rightarrow> real" where
  "se_lower_band se = get_lower_band (m_kalman se) (conf_band se)"

definition se_hurst :: "SignalEngine \<Rightarrow> real" where
  "se_hurst se = get_hurst (m_hurst se)"

definition get_vol_regime :: "SignalEngine \<Rightarrow> VolRegime" where
  "get_vol_regime se = get_regime (m_vol_regime se)"

section \<open>position.py\<close>

text \<open>
  The index of the data frame holds the bar times. A time that has a \<^verbatim>\<open>date()\<close>
  (a timestamp) carries its calendar date and its time of day; any other index value
  is its own day.
\<close>

datatype bar_time = Timestamp nat nat | Label nat

datatype day_key = Date nat | Raw nat

record Position =
  ticket :: int
  ptype :: PositionType
  open_time :: bar_time
  open_price :: real
  lots :: real
  stop_loss :: real
  entry_bar_index :: nat

record ClosedTrade =
  ct_ticket :: int
  ct_type :: PositionType
  ct_open_time :: bar_time
  ct_close_time :: bar_time
  ct_open_price :: real
  ct_close_price :: real
  ct_lots :: real
  ct_profit :: real
  ct_close_reason :: string
  ct_entry_bar_index :: nat
  ct_exit_bar_index :: nat

section \<open>risk\_manager.py\<close>

text \<open>A float division: ZeroDivisionError on a zero divisor.\<close>

definition py_div :: "real \<Rightarrow> real \<Rightarrow> py_error + real" where
  "py_div a b = (if b = 0 then Inl ZeroDivisionError else Inr (a / b))"

record RiskManager =
  rm_ea :: EAConfig
  rm_inst :: InstrumentConfig
  day_start_equity :: real

definition RiskManager_new :: "EAConfig \<Rightarrow> InstrumentConfig \<Rightarrow> RiskManager" where
  "RiskManager_new ea inst =
     \<lparr> rm_ea = ea, rm_inst = inst, day_start_equity = initial_equity ea \<rparr>"

definition on_new_day :: "RiskManager \<Rightarrow> real \<Rightarrow> RiskManager" where
  "on_new_day rm eq = rm\<lparr> day_start_equity := eq \<rparr>"

definition calc_margin :: "RiskManager \<Rightarrow> real \<Rightarrow> real \<Rightarrow> py_error + real" where
  "calc_margin rm l price =
     py_div (l * contract_size (rm_inst rm) * price) (real_of_int (leverage (rm_ea rm)))"

definition used_body :: "RiskManager \<Rightarrow> py_error + real \<Rightarrow> Position \<Rightarrow> py_error + real" where
  "used_body rm acc pos =
     bind_res acc (\<lambda>total.
       bind_res (calc_margin rm (lots pos) (open_price pos)) (\<lambda>m. Inr (total + m)))"

definition get_used_margin :: "RiskManager \<Rightarrow> Position list \<Rightarrow> py_error + real" where
  "get_used_margin rm ps = foldl (used_body rm) (Inr 0) ps"

definition get_free_margin :: "RiskManager \<Rightarrow> real \<Rightarrow> Position list \<Rightarrow> py_error + real" where
  "get_free_margin rm eq ps = bind_res (get_used_margin rm ps) (\<lambda>used. Inr (eq - used))"

text \<open>The normalisation to the lot step, done only for a positive step.\<close>

definition normalize_step :: "real \<Rightarrow> real \<Rightarrow> real" where
  "normalize_step step l = (if step > 0 then real_of_int \<lfloor>l / step\<rfloor> * step else l)"

definition calc_lots ::
  "RiskManager \<Rightarrow> real \<Rightarrow> VolRegime \<Rightarrow> real \<Rightarrow> Position list \<Rightarrow> real \<Rightarrow> py_error + real" where
  "calc_lots rm stop_points regime eq ps entry_price =
     (if stop_points \<le> 0 then Inr 0
      else
        (let point_val = point_value (rm_inst rm) in
         if point_val \<le> 0 then Inr 0
         else
           (let risk_amount = eq * risk_per_trade (rm_ea rm);
                l0 = risk_amount / (stop_points * point_val);
                l1 = (if regime = LOW then l0 * 0.5
                      else if regime = HIGH then l0 * 0.7 else l0);
                step = lot_step (rm_inst rm);
                l2 = normalize_step step l1;
                l3 = max l2 (min_lot (rm_inst rm));
                l4 = min l3 (max_lot (rm_inst rm))
            in bind_res (get_free_margin rm eq ps) (\<lambda>free.
                 bind_res (calc_margin rm l4 entry_price) (\<lambda>required.
                   if required > free then
                     (if free \<le> 0 then Inr 0
                      else
                        bind_res
                          (py_div (free * real_of_int (leverage (rm_ea rm)))
                             (contract_size (rm_inst rm) * entry_price))
                          (\<lambda>l5. let l6 = normalize_step step l5 in
                                 if l6 < min_lot (rm_inst rm) then Inr 0 else Inr l6))
                   else Inr l4)))))"

text \<open>
  The daily drawdown gate of \<^verbatim>\<open>can_open_trade\<close>: True when it rejects. The division
  stands behind both guards, as the short-circuit \<^verbatim>\<open>and\<close> of the source has it.
\<close>

definition drawdown_rejects :: "RiskManager \<Rightarrow> real \<Rightarrow> py_error + bool" where
  "drawdown_rejects rm eq =
     (if day_start_equity rm > 0 then
        (let day_pnl = eq - day_start_equity rm in
         if day_pnl < 0 then
           bind_res (py_div \<bar>day_pnl\<bar> (day_start_equity rm))
             (\<lambda>dd. Inr (dd > max_daily_dd (rm_ea rm)))
         else Inr False)
      else Inr False)"

definition can_open_trade ::
  "RiskManager \<Rightarrow> Position list \<Rightarrow> real \<Rightarrow> real \<Rightarrow> real \<Rightarrow> real \<Rightarrow> py_error + bool" where
  "can_open_trade rm ps eq spread new_lots new_price =
     (if int (length ps) \<ge> max_positions (rm_ea rm) then Inr False
      else
        bind_res (drawdown_rejects rm eq) (\<lambda>rejected.
          if rejected then Inr False
          else if spread > max_spread_points (rm_ea rm) then Inr False
          else
            bind_res (calc_margin rm new_lots new_price) (\<lambda>required.
              bind_res (get_free_margin rm eq ps) (\<lambda>free.
                if free < required then Inr False else Inr True))))"

definition get_stop_loss :: "Signal \<Rightarrow> real \<Rightarrow> real \<Rightarrow> real \<Rightarrow> real" where
  "get_stop_loss sig kalman_level est_error multiplier =
     (let stop_dist = est_error * multiplier in
      if sig = BUY then kalman_level - stop_dist
      else if sig = SELL then kalman_level + stop_dist
      else 0)"

definition get_stop_points :: "real \<Rightarrow> real \<Rightarrow> real \<Rightarrow> py_error + real" where
  "get_stop_points entry_price sl pt = py_div \<bar>entry_price - sl\<bar> pt"

section \<open>backtester.py\<close>

text \<open>One row of the data frame: its index value and the columns that \<^verbatim>\<open>run\<close> reads.\<close>

record Bar =
  b_time :: bar_time
  b_high :: real
  b_low :: real
  b_close :: real

record BacktestResult =
  equity_curve :: "real list"
  trades :: "ClosedTrade list"
  kalman_levels :: "real list"
  kalman_upper :: "real list"
  kalman_lower :: "real list"
  hurst_values :: "real list"
  vol_regimes :: "VolRegime list"
  signals :: "Signal list"
  dates :: "bar_time list"

definition BacktestResult_new :: BacktestResult where
  "BacktestResult_new =
     \<lparr> equity_curve = [], trades = [], kalman_levels = [], kalman_upper = [],
       kalman_lower = [], hurst_values = [], vol_regimes = [], signals = [], dates = [] \<rparr>"

text \<open>The local variables of \<^verbatim>\<open>Backtester.run\<close> that live across the bars.\<close>

record bt_state =
  equity :: real
  realized_pnl :: real
  positions :: "Position list"
  closed_trades :: "ClosedTrade list"
  next_ticket :: int
  bars_since_close :: int
  last_day :: "day_key option"
  signal_engine :: SignalEngine
  risk_mgr :: RiskManager
  res :: BacktestResult

definition today_of :: "bar_time \<Rightarrow> day_key" where
  "today_of t = (case t of Timestamp d c \<Rightarrow> Date d | Label l \<Rightarrow> Raw l)"

definition half_spread :: "InstrumentConfig \<Rightarrow> real" where
  "half_spread inst = spread_points inst * point inst / 2.0"

definition slippage :: "EAConfig \<Rightarrow> InstrumentConfig \<Rightarrow> real" where
  "slippage ea inst = slippage_points ea * point inst"

text \<open>The ClosedTrade that the four closing sites build from a position.\<close>

definition closed_trade ::
  "Position \<Rightarrow> bar_time \<Rightarrow> real \<Rightarrow> real \<Rightarrow> string \<Rightarrow> nat \<Rightarrow> ClosedTrade" where
  "closed_trade pos close_time close_price pnl reason exit_index =
     \<lparr> ct_ticket = ticket pos, ct_type = ptype pos, ct_open_time = open_time pos,
       ct_close_time = close_time, ct_open_price = open_price pos,
       ct_close_price = close_price, ct_lots = lots pos, ct_profit = pnl,
       ct_close_reason = reason, ct_entry_bar_index = entry_bar_index pos,
       ct_exit_bar_index = exit_index \<rparr>"

subsection \<open>New day detection\<close>

definition new_day_step :: "bar_time \<Rightarrow> bt_state \<Rightarrow> bt_state" where
  "new_day_step current_date s =
     (let today = today_of current_date in
      if Some today \<noteq> last_day s then
        s\<lparr> risk_mgr := on_new_day (risk_mgr s) (equity s), last_day := Some today \<rparr>
      else s)"

subsection \<open>Stop loss check\<close>

text \<open>
  The body of the loop over \<^verbatim>\<open>enumerate(positions)\<close>, on the variables
  \<open>(realized_pnl, closed_trades, sl_closed, bars_since_close)\<close>.
\<close>

definition sl_body ::
  "InstrumentConfig \<Rightarrow> bar_time \<Rightarrow> nat \<Rightarrow> real \<Rightarrow> real \<Rightarrow>
   real \<times> ClosedTrade list \<times> nat list \<times> int \<Rightarrow> nat \<times> Position \<Rightarrow>
   real \<times> ClosedTrade list \<times> nat list \<times> int" where
  "sl_body inst current_date i bar_low bar_high acc ip =
     (case acc of (realized, ctrades, sl_closed, bsc) \<Rightarrow>
        (case ip of (idx, pos) \<Rightarrow>
           if ptype pos = PT_BUY \<and> bar_low \<le> stop_loss pos then
             (let close_price = stop_loss pos;
                  pnl = (close_price - open_price pos) * lots pos * contract_size inst
              in (realized + pnl,
                  ctrades @ [closed_trade pos current_date close_price pnl ''stop_loss'' i],
                  sl_closed @ [idx], 0))
           else if ptype pos = PT_SELL \<and> bar_high \<ge> stop_loss pos then
             (let close_price = stop_loss pos;
                  pnl = (open_price pos - close_price) * lots pos * contract_size inst
              in (realized + pnl,
                  ctrades @ [closed_trade pos current_date close_price pnl ''stop_loss'' i],
                  sl_closed @ [idx], 0))
           else acc))"

text \<open>\<^verbatim>\<open>positions.pop(idx)\<close>: IndexError outside the list.\<close>

definition py_pop :: "'a list \<Rightarrow> nat \<Rightarrow> py_error + 'a list" where
  "py_pop xs idx =
     (if idx < length xs then Inr (take idx xs @ drop (Suc idx) xs) else Inl IndexError)"

definition pop_body :: "py_error + 'a list \<Rightarrow> nat \<Rightarrow> py_error + 'a list" where
  "pop_body acc idx = bind_res acc (\<lambda>xs. py_pop xs idx)"

definition stop_loss_check ::
  "InstrumentConfig \<Rightarrow> bar_time \<Rightarrow> nat \<Rightarrow> real \<Rightarrow> real \<Rightarrow> bt_state \<Rightarrow> py_error + bt_state" where
  "stop_loss_check inst current_date i bar_low bar_high s =
     (case foldl (sl_body inst current_date i bar_low bar_high)
             (realized_pnl s, closed_trades s, [], bars_since_close s)
             (enumerate 0 (positions s)) of
        (realized, ctrades, sl_closed, bsc) \<Rightarrow>
          bind_res (foldl pop_body (Inr (positions s)) (rev (sort sl_closed)))
            (\<lambda>ps. Inr (s\<lparr> realized_pnl := realized, closed_trades := ctrades,
                           positions := ps, bars_since_close := bsc \<rparr>)))"

subsection \<open>Signal exit\<close>

text \<open>\<^verbatim>\<open>positions.remove(pos)\<close>: the first equal element goes, ValueError without one.\<close>

definition py_remove :: "'a \<Rightarrow> 'a list \<Rightarrow> py_error + 'a list" where
  "py_remove x xs = (if x \<in> set xs then Inr (remove1 x xs) else Inl ValueError)"

definition held_long_enough :: "EAConfig \<Rightarrow> nat \<Rightarrow> Position \<Rightarrow> bool" where
  "held_long_enough ea i p = (int i - int (entry_bar_index p) \<ge> min_hold_bars ea)"

definition exit_buy_body ::
  "InstrumentConfig \<Rightarrow> bar_time \<Rightarrow> nat \<Rightarrow> real \<Rightarrow>
   py_error + real \<times> ClosedTrade list \<times> Position list \<Rightarrow> Position \<Rightarrow>
   py_error + real \<times> ClosedTrade list \<times> Position list" where
  "exit_buy_body inst current_date i bid acc pos =
     bind_res acc (\<lambda>(realized, ctrades, ps).
       (let pnl = (bid - open_price pos) * lots pos * contract_size inst in
        bind_res (py_remove pos ps) (\<lambda>ps'.
          Inr (realized + pnl,
               ctrades @ [closed_trade pos current_date bid pnl ''signal'' i], ps'))))"

definition exit_sell_body ::
  "InstrumentConfig \<Rightarrow> bar_time \<Rightarrow> nat \<Rightarrow> real \<Rightarrow>
   py_error + real \<times> ClosedTrade list \<times> Position list \<Rightarrow> Position \<Rightarrow>
   py_error + real \<times> ClosedTrade list \<times> Position list" where
  "exit_sell_body inst current_date i ask acc pos =
     bind_res acc (\<lambda>(realized, ctrades, ps).
       (let pnl = (open_price pos - ask) * lots pos * contract_size inst in
        bind_res (py_remove pos ps) (\<lambda>ps'.
          Inr (realized + pnl,
               ctrades @ [closed_trade pos current_date ask pnl ''signal'' i], ps'))))"

definition signal_exit_buy ::
  "EAConfig \<Rightarrow> InstrumentConfig \<Rightarrow> bar_time \<Rightarrow> nat \<Rightarrow> real \<Rightarrow> bt_state \<Rightarrow> py_error + bt_state" where
  "signal_exit_buy ea inst current_date i bar_close s =
     (if list_ex (\<lambda>p. ptype p = PT_BUY) (positions s) \<and> should_close_buy (signal_engine s)
      then
        (let bid = bar_close - half_spread inst;
             to_close = filter (\<lambda>p. ptype p = PT_BUY \<and> held_long_enough ea i p) (positions s)
         in bind_res
              (foldl (exit_buy_body inst current_date i bid)
                 (Inr (realized_pnl s, closed_trades s, positions s)) to_close)
              (\<lambda>(realized, ctrades, ps).
                 Inr (s\<lparr> realized_pnl := realized, closed_trades := ctrades,
                         positions := ps, bars_since_close := 0 \<rparr>)))
      else Inr s)"

definition signal_exit_sell ::
  "EAConfig \<Rightarrow> InstrumentConfig \<Rightarrow> bar_time \<Rightarrow> nat \<Rightarrow> real \<Rightarrow> bt_state \<Rightarrow> py_error + bt_state" where
  "signal_exit_sell ea inst current_date i bar_close s =
     (if list_ex (\<lambda>p. ptype p = PT_SELL) (positions s) \<and> should_close_sell (signal_engine s)
      then
        (let ask = bar_close + half_spread inst;
             to_close = filter (\<lambda>p. ptype p = PT_SELL \<and> held_long_enough ea i p) (positions s)
         in bind_res
              (foldl (exit_sell_body inst current_date i ask)
                 (Inr (realized_pnl s, closed_trades s, positions s)) to_close)
              (\<lambda>(realized, ctrades, ps).
                 Inr (s\<lparr> realized_pnl := realized, closed_trades := ctrades,
                         positions := ps, bars_since_close := 0 \<rparr>)))
      else Inr s)"

subsection \<open>Entry signal\<close>

text \<open>The entry signal after the reverse position protection and the cooldown.\<close>

definition gated_signal :: "EAConfig \<Rightarrow> real \<Rightarrow> bt_state \<Rightarrow> Signal" where
  "gated_signal ea bar_close s =
     (let sig0 = get_entry_signal (signal_engine s) bar_close;
          sig1 = (if sig0 = BUY \<and> list_ex (\<lambda>p. ptype p = PT_SELL) (positions s)
                  then NONE else sig0);
          sig2 = (if sig1 = SELL \<and> list_ex (\<lambda>p. ptype p = PT_BUY) (positions s)
                  then NONE else sig1)
      in if sig2 \<noteq> NONE \<and> bars_since_close s < close_cooldown ea then NONE else sig2)"

text \<open>
  The entry block. It returns the state, the entry signal and the flag
  \<^verbatim>\<open>entry_this_bar\<close>. The gate \<^verbatim>\<open>can_open_trade\<close> is called only for a positive size.
\<close>

definition entry_step ::
  "EAConfig \<Rightarrow> InstrumentConfig \<Rightarrow> bar_time \<Rightarrow> nat \<Rightarrow> real \<Rightarrow> bt_state \<Rightarrow>
   py_error + bt_state \<times> Signal \<times> bool" where
  "entry_step ea inst current_date i bar_close s =
     (let entry_signal = gated_signal ea bar_close s in
      if entry_signal \<noteq> NONE then
        (let kalman_level = get_kalman_level (signal_engine s);
             est_error = se_estimation_error (signal_engine s);
             regime = get_vol_regime (signal_engine s);
             sl = get_stop_loss entry_signal kalman_level est_error (kf_conf_band ea);
             entry_price = (if entry_signal = BUY
                            then bar_close + half_spread inst + slippage ea inst
                            else bar_close - half_spread inst - slippage ea inst)
         in bind_res (get_stop_points entry_price sl (point inst)) (\<lambda>stop_points.
              bind_res (calc_lots (risk_mgr s) stop_points regime (equity s) (positions s)
                          entry_price) (\<lambda>l.
                if l > 0 then
                  bind_res (can_open_trade (risk_mgr s) (positions s) (equity s)
                              (spread_points inst) l entry_price) (\<lambda>ok.
                    if ok then
                      (let pos = \<lparr> ticket = next_ticket s,
                                   ptype = (if entry_signal = BUY then PT_BUY else PT_SELL),
                                   open_time = current_date, open_price = entry_price,
                                   lots = l, stop_loss = sl, entry_bar_index = i \<rparr>
                       in Inr (s\<lparr> positions := positions s @ [pos],
                                  next_ticket := next_ticket s + 1 \<rparr>,
                               entry_signal, True))
                    else Inr (s, entry_signal, False))
                else Inr (s, entry_signal, False))))
      else Inr (s, entry_signal, False))"

subsection \<open>Trailing stop\<close>

definition trail_position :: "EAConfig \<Rightarrow> nat \<Rightarrow> real \<Rightarrow> real \<Rightarrow> Position \<Rightarrow> Position" where
  "trail_position ea i trail_buy trail_sell pos =
     (if entry_bar_index pos = i then pos
      else if int i - int (entry_bar_index pos) < min_hold_bars ea then pos
      else if ptype pos = PT_BUY \<and> trail_buy > 0 then
        (if stop_loss pos > 0 \<and> trail_buy > stop_loss pos
         then pos\<lparr> stop_loss := trail_buy \<rparr> else pos)
      else if ptype pos = PT_SELL \<and> trail_sell > 0 then
        (if stop_loss pos > 0 \<and> trail_sell < stop_loss pos
         then pos\<lparr> stop_loss := trail_sell \<rparr> else pos)
      else pos)"

definition trailing_stop :: "EAConfig \<Rightarrow> nat \<Rightarrow> bool \<Rightarrow> bt_state \<Rightarrow> bt_state" where
  "trailing_stop ea i entry_this_bar s =
     (if \<not> entry_this_bar \<and> positions s \<noteq> [] then
        (let level = get_kalman_level (signal_engine s);
             err = se_estimation_error (signal_engine s);
             trail_buy = level - err * trail_multiplier ea;
             trail_sell = level + err * trail_multiplier ea
         in s\<lparr> positions := map (trail_position ea i trail_buy trail_sell) (positions s) \<rparr>)
      else s)"

subsection \<open>Equity and records\<close>

definition unrealized_body :: "InstrumentConfig \<Rightarrow> real \<Rightarrow> real \<Rightarrow> Position \<Rightarrow> real" where
  "unrealized_body inst bar_close unrealized pos =
     (if ptype pos = PT_BUY
      then unrealized + (bar_close - open_price pos) * lots pos * contract_size inst
      else unrealized + (open_price pos - bar_close) * lots pos * contract_size inst)"

definition update_equity :: "EAConfig \<Rightarrow> InstrumentConfig \<Rightarrow> real \<Rightarrow> bt_state \<Rightarrow> bt_state" where
  "update_equity ea inst bar_close s =
     (let unrealized = foldl (unrealized_body inst bar_close) 0 (positions s) in
      s\<lparr> equity := initial_equity ea + realized_pnl s + unrealized \<rparr>)"

definition record_bar :: "bar_time \<Rightarrow> Signal \<Rightarrow> bool \<Rightarrow> bt_state \<Rightarrow> bt_state" where
  "record_bar current_date entry_signal entry_this_bar s =
     (let r = res s; se = signal_engine s in
      s\<lparr> res := r\<lparr> equity_curve := equity_curve r @ [equity s],
                    kalman_levels := kalman_levels r @ [get_kalman_level se],
                    kalman_upper := kalman_upper r @ [se_upper_band se],
                    kalman_lower := kalman_lower r @ [se_lower_band se],
                    hurst_values := hurst_values r @ [se_hurst se],
                    vol_regimes := vol_regimes r @ [get_vol_regime se],
                    signals := signals r @ [if entry_this_bar then entry_signal else NONE],
                    dates := dates r @ [current_date] \<rparr> \<rparr>)"

subsection \<open>One iteration of the main trading loop\<close>

text \<open>
  The body of \<^verbatim>\<open>for i in range(warmup_bars, n_bars)\<close>. \<^verbatim>\<open>closes[i - 1]\<close> is the
  last close when \<open>i\<close> is 0, as a negative index reads from the end.
\<close>

definition bar_step ::
  "EAConfig \<Rightarrow> InstrumentConfig \<Rightarrow> Bar list \<Rightarrow> nat \<Rightarrow> bt_state \<Rightarrow> py_error + bt_state" where
  "bar_step ea inst data i s =
     (if i \<ge> length data then Inl IndexError
      else
        (let s0 = s\<lparr> bars_since_close := bars_since_close s + 1 \<rparr>;
             current_date = b_time (data ! i);
             s1 = new_day_step current_date s0;
             prev = (if i = 0 then length data - 1 else i - 1);
             bar_close = b_close (data ! i);
             bar_high = b_high (data ! i);
             bar_low = b_low (data ! i)
         in bind_res (on_new_bar (signal_engine s1) bar_close (b_close (data ! prev)))
              (\<lambda>se.
                 bind_res (stop_loss_check inst current_date i bar_low bar_high
                             (s1\<lparr> signal_engine := se \<rparr>)) (\<lambda>s3.
                   bind_res (signal_exit_buy ea inst current_date i bar_close s3) (\<lambda>s4.
                     bind_res (signal_exit_sell ea inst current_date i bar_close s4) (\<lambda>s5.
                       bind_res (entry_step ea inst current_date i bar_close s5)
                         (\<lambda>(s6, entry_signal, entry_this_bar).
                            Inr (record_bar current_date entry_signal entry_this_bar
                                   (update_equity ea inst bar_close
                                      (trailing_stop ea i entry_this_bar s6))))))))))"

subsection \<open>The run\<close>

definition warmup_bars :: "EAConfig \<Rightarrow> nat \<Rightarrow> nat" where
  "warmup_bars ea n_bars = min (max (hurst_period ea) (vol_hist_period ea) + 50) (n_bars - 1)"

text \<open>
  The arguments of the calls of \<^verbatim>\<open>on_new_bar\<close> before the main loop, in order: the
  seeding call, then one call for each \<open>i\<close> in \<^verbatim>\<open>range(1, warmup_bars)\<close>.
\<close>

definition warmup_feed :: "real list \<Rightarrow> nat \<Rightarrow> (real \<times> real) list" where
  "warmup_feed closes w =
     (closes ! 0, closes ! 0) # map (\<lambda>i. (closes ! i, closes ! (i - 1))) [1..<w]"

definition feed_body :: "py_error + SignalEngine \<Rightarrow> real \<times> real \<Rightarrow> py_error + SignalEngine" where
  "feed_body acc cp = bind_res acc (\<lambda>se. on_new_bar se (fst cp) (snd cp))"

definition init_engine :: "EAConfig \<Rightarrow> SignalEngine" where
  "init_engine ea =
     se_init SignalEngine_new (kf_process_noise ea) (kf_observ_noise ea) (kf_conf_band ea)
       (hurst_period ea) (hurst_threshold ea) (vol_period ea) (vol_hist_period ea)
       (hurst_exit_threshold ea)"

definition initial_state :: "EAConfig \<Rightarrow> InstrumentConfig \<Rightarrow> SignalEngine \<Rightarrow> bt_state" where
  "initial_state ea inst se =
     \<lparr> equity = initial_equity ea, realized_pnl = 0, positions = [], closed_trades = [],
       next_ticket = 1, bars_since_close = 100, last_day = None, signal_engine = se,
       risk_mgr = RiskManager_new ea inst, res = BacktestResult_new \<rparr>"

definition loop_body ::
  "EAConfig \<Rightarrow> InstrumentConfig \<Rightarrow> Bar list \<Rightarrow> py_error + bt_state \<Rightarrow> nat \<Rightarrow> py_error + bt_state" where
  "loop_body ea inst data acc i = bind_res acc (bar_step ea inst data i)"

text \<open>The state after the warmup and the first \<open>k\<close> iterations of the main loop.\<close>

definition state_after ::
  "EAConfig \<Rightarrow> InstrumentConfig \<Rightarrow> Bar list \<Rightarrow> nat \<Rightarrow> py_error + bt_state" where
  "state_after ea inst data k =
     (if data = [] then Inl IndexError
      else
        (let closes = map b_close data;
             w = warmup_bars ea (length data)
         in bind_res (foldl feed_body (Inr (init_engine ea)) (warmup_feed closes w))
              (\<lambda>se. foldl (loop_body ea inst data) (Inr (initial_state ea inst se))
                      [w..<w + k])))"

text \<open>The closing of the positions that are left after the last bar.\<close>

definition final_body ::
  "InstrumentConfig \<Rightarrow> bar_time \<Rightarrow> real \<Rightarrow> nat \<Rightarrow> real \<times> ClosedTrade list \<Rightarrow> Position \<Rightarrow>
   real \<times> ClosedTrade list" where
  "final_body inst last_date last_close n_bars acc pos =
     (case acc of (realized, ctrades) \<Rightarrow>
        (let cp = (if ptype pos = PT_BUY then last_close - half_spread inst
                   else last_close + half_spread inst);
             pnl = (if ptype pos = PT_BUY
                    then (cp - open_price pos) * lots pos * contract_size inst
                    else (open_price pos - cp) * lots pos * contract_size inst)
         in (realized + pnl,
             ctrades @ [closed_trade pos last_date cp pnl ''end_of_data'' (n_bars - 1)])))"

definition close_remaining :: "InstrumentConfig \<Rightarrow> Bar list \<Rightarrow> bt_state \<Rightarrow> bt_state" where
  "close_remaining inst data s =
     (if positions s \<noteq> [] then
        (case foldl (final_body inst (b_time (last data)) (b_close (last data)) (length data))
                (realized_pnl s, closed_trades s) (positions s) of
           (realized, ctrades) \<Rightarrow> s\<lparr> realized_pnl := realized, closed_trades := ctrades \<rparr>)
      else s)"

definition run :: "EAConfig \<Rightarrow> InstrumentConfig \<Rightarrow> Bar list \<Rightarrow> py_error + BacktestResult" where
  "run ea inst data =
     bind_res (state_after ea inst data (length data - warmup_bars ea (length data)))
       (\<lambda>s. let s' = close_remaining inst data s in
             Inr ((res s')\<lparr> trades := closed_trades s' \<rparr>))"

section \<open>Notions used in the statements\<close>

text \<open>
  A stop that the bar touches, and the profit and the ClosedTrade of a position that is
  closed at its stop.
\<close>

definition sl_touched :: "real \<Rightarrow> real \<Rightarrow> Position \<Rightarrow> bool" where
  "sl_touched bar_low bar_high p =
     ((ptype p = PT_BUY \<and> bar_low \<le> stop_loss p) \<or>
      (ptype p = PT_SELL \<and> bar_high \<ge> stop_loss p))"

definition sl_profit :: "InstrumentConfig \<Rightarrow> Position \<Rightarrow> real" where
  "sl_profit inst p =
     (if ptype p = PT_BUY then (stop_loss p - open_price p) * lots p * contract_size inst
      else - ((stop_loss p - open_price p) * lots p * contract_size inst))"

definition sl_trade :: "InstrumentConfig \<Rightarrow> bar_time \<Rightarrow> nat \<Rightarrow> Position \<Rightarrow> ClosedTrade" where
  "sl_trade inst current_date i p =
     closed_trade p current_date (stop_loss p) (sl_profit inst p) ''stop_loss'' i"

text \<open>Concrete positions, states and filters for the examples.\<close>

definition long_example :: Position where
  "long_example = \<lparr> ticket = 1, ptype = PT_BUY, open_time = Timestamp 2 0, open_price = 1.1000,
     lots = 0.1, stop_loss = 1.0950, entry_bar_index = 3 \<rparr>"

definition short_example :: Position where
  "short_example = \<lparr> ticket = 2, ptype = PT_SELL, open_time = Timestamp 2 1, open_price = 1.0990,
     lots = 0.2, stop_loss = 1.2000, entry_bar_index = 4 \<rparr>"

definition sl_example_state :: bt_state where
  "sl_example_state =
     (initial_state default_ea EURUSD (init_engine default_ea))
       \<lparr> positions := [long_example, short_example], bars_since_close := 5 \<rparr>"

definition kalman_example :: KalmanFilter where
  "kalman_example =
     \<lparr> state0 = 100, state1 = 0, P00 = 1, P01 = 0, P10 = 0, P11 = 0.01,
       Q00 = 0.99, Q01 = 0, Q10 = 0, Q11 = 0.99, R_obs = 2, initialized = True \<rparr>"

text \<open>
  A sequence of updates of one filter, and a properly configured filter: the process noise is not negative, the observation
  noise is positive, and once the filter is initialized its covariance is symmetric
  and positive semidefinite.
\<close>

fun kalman_updates :: "real list \<Rightarrow> KalmanFilter \<Rightarrow> py_error + KalmanFilter" where
  "kalman_updates [] k = Inr k"
| "kalman_updates (price # prices) k =
     (case kalman_update k price of Inl e \<Rightarrow> Inl e | Inr k' \<Rightarrow> kalman_updates prices k')"

definition kalman_ok :: "KalmanFilter \<Rightarrow> bool" where
  "kalman_ok k =
     (0 \<le> Q00 k \<and> 0 \<le> Q11 k \<and> Q01 k = 0 \<and> Q10 k = 0 \<and> 0 < R_obs k \<and>
      (initialized k \<longrightarrow>
         P01 k = P10 k \<and> 0 \<le> P00 k \<and> 0 \<le> P11 k \<and> P01 k * P10 k \<le> P00 k * P11 k))"

text \<open>
  The sizing rule in the words of the specification (section 4.5): the required margin,
  the used and the free margin, the rounding down to the lot step, the regime
  multiplier and \<open>sizePosition\<close>.
\<close>

definition requiredMargin :: "EAConfig \<Rightarrow> InstrumentConfig \<Rightarrow> real \<Rightarrow> real \<Rightarrow> real" where
  "requiredMargin ea inst l price = l * contract_size inst * price / real_of_int (leverage ea)"

definition usedMargin :: "EAConfig \<Rightarrow> InstrumentConfig \<Rightarrow> Position list \<Rightarrow> real" where
  "usedMargin ea inst ps = sum_list (map (\<lambda>p. requiredMargin ea inst (lots p) (open_price p)) ps)"

definition freeMargin :: "EAConfig \<Rightarrow> InstrumentConfig \<Rightarrow> real \<Rightarrow> Position list \<Rightarrow> real" where
  "freeMargin ea inst eq ps = eq - usedMargin ea inst ps"

definition round_down_to_step :: "real \<Rightarrow> real \<Rightarrow> real" where
  "round_down_to_step step x = real_of_int \<lfloor>x / step\<rfloor> * step"

definition regime_multiplier :: "VolRegime \<Rightarrow> real" where
  "regime_multiplier regime = (case regime of LOW \<Rightarrow> 0.5 | HIGH \<Rightarrow> 0.7 | NORMAL \<Rightarrow> 1.0)"

definition sizePosition ::
  "EAConfig \<Rightarrow> InstrumentConfig \<Rightarrow> real \<Rightarrow> VolRegime \<Rightarrow> real \<Rightarrow> Position list \<Rightarrow> real \<Rightarrow> real" where
  "sizePosition ea inst stopPoints regime eq ps entryPrice =
     (if stopPoints \<le> 0 \<or> point_value inst \<le> 0 then 0
      else
        (let base = (eq * risk_per_trade ea) / (stopPoints * point_value inst);
             size = min (max (round_down_to_step (lot_step inst) (base * regime_multiplier regime))
                          (min_lot inst))
                      (max_lot inst);
             free = freeMargin ea inst eq ps
         in if requiredMargin ea inst size entryPrice > free then
              (if free \<le> 0 then 0
               else
                 (let shrunk = round_down_to_step (lot_step inst)
                                 (free * real_of_int (leverage ea) /
                                    (contract_size inst * entryPrice))
                  in if shrunk < min_lot inst then 0 else shrunk))
            else size))"

text \<open>
  Three states of a volatility classifier with a return buffer of 2 and a history of 5:
  after \<^verbatim>\<open>init(2, 5)\<close> and \<^verbatim>\<open>update(1.0, 1.0)\<close>, then after \<^verbatim>\<open>update(2.0, 1.0)\<close>,
  then after \<^verbatim>\<open>update(1.0, 2.0)\<close>.
\<close>

definition vol_example :: VolatilityRegime where
  "vol_example =
     \<lparr> v_period = 2, v_hist_period = 5, v_returns = [0, 0], ret_head = 0, ret_count = 1,
       vol_history = [0, 0, 0, 0, 0], vol_head = 0, vol_count = 0, current_vol = 0,
       percentile = 0.5 \<rparr>"

definition vol_example2 :: VolatilityRegime where
  "vol_example2 =
     \<lparr> v_period = 2, v_hist_period = 5, v_returns = [0, ln 2], ret_head = 0, ret_count = 2,
       vol_history = [ln 2 / 2, 0, 0, 0, 0], vol_head = 0, vol_count = 1,
       current_vol = ln 2 / 2, percentile = 0.5 \<rparr>"

definition vol_example3 :: VolatilityRegime where
  "vol_example3 =
     \<lparr> v_period = 2, v_hist_period = 5, v_returns = [- ln 2, ln 2], ret_head = 1, ret_count = 2,
       vol_history = [ln 2 / 2, ln 2, 0, 0, 0], vol_head = 0, vol_count = 2,
       current_vol = ln 2, percentile = 0.5 \<rparr>"

text \<open>
  A sequence of calls on one estimator object. An exception ends the sequence.
\<close>

datatype hurst_call = Init nat | Update real real

fun hurst_calls :: "hurst_call list \<Rightarrow> HurstExponent \<Rightarrow> py_error + HurstExponent" where
  "hurst_calls [] h = Inr h"
| "hurst_calls (Init period # cs) h = hurst_calls cs (hurst_init h period)"
| "hurst_calls (Update close prev_close # cs) h =
     (case hurst_update h close prev_close of
        Inl e \<Rightarrow> Inl e
      | Inr h' \<Rightarrow> hurst_calls cs h')"

text \<open>
  The well-formed estimator objects: the buffer has the length of the period, the
  period is positive, and the head and the count stay within it.
\<close>

definition hurst_wf :: "HurstExponent \<Rightarrow> bool" where
  "hurst_wf h =
     (length (h_returns h) = h_period h \<and> 0 < h_period h \<and> h_head h < h_period h \<and>
      h_count h \<le> h_period h)"

text \<open>
  After an \<^verbatim>\<open>init\<close> with a positive period the estimator never raises: every sequence
  of updates and of further such \<^verbatim>\<open>init\<close> calls returns.
\<close>

fun positive_periods :: "hurst_call list \<Rightarrow> bool" where
  "positive_periods [] = True"
| "positive_periods (Init period # cs) = (0 < period \<and> positive_periods cs)"
| "positive_periods (Update close prev_close # cs) = positive_periods cs"

text \<open>Open positions that are all long or all short.\<close>

definition one_sided :: "Position list \<Rightarrow> bool" where
  "one_sided ps =
     (list_all (\<lambda>p. ptype p = PT_BUY) ps \<or> list_all (\<lambda>p. ptype p = PT_SELL) ps)"

text \<open>
  A state of the main loop with one open short position, and two bars. The filter
  carries the level 10 and the slope 1 with no uncertainty, the strength estimator has
  its 20 samples.
\<close>

definition example_ea :: EAConfig where
  "example_ea = default_ea\<lparr> kf_process_noise := 0, hurst_period := 20, hurst_threshold := 0.4,
     vol_period := 2, vol_hist_period := 2, min_hold_bars := 1 \<rparr>"

definition example_kalman :: KalmanFilter where
  "example_kalman = \<lparr> state0 = 10, state1 = 1, P00 = 0, P01 = 0, P10 = 0, P11 = 0,
     Q00 = 0, Q01 = 0, Q10 = 0, Q11 = 0, R_obs = 1, initialized = True \<rparr>"

definition example_hurst :: HurstExponent where
  "example_hurst = \<lparr> h_period = 20, h_returns = replicate 20 0, h_head = 0, h_count = 20,
     h_hurst = 0.5 \<rparr>"

definition example_engine :: SignalEngine where
  "example_engine = \<lparr> m_kalman = example_kalman, m_hurst = example_hurst,
     m_vol_regime = vol_init VolatilityRegime_new 2 2, conf_band = 2,
     se_hurst_threshold = 0.4, se_hurst_exit_threshold = 0.4 \<rparr>"

definition example_short :: Position where
  "example_short = \<lparr> ticket = 1, ptype = PT_SELL, open_time = Timestamp 1 0, open_price = 11,
     lots = 0.1, stop_loss = 20, entry_bar_index = 0 \<rparr>"

definition example_state :: bt_state where
  "example_state = \<lparr> equity = 10000, realized_pnl = 0, positions = [example_short],
     closed_trades = [], next_ticket = 2, bars_since_close = 100, last_day = Some (Date 1),
     signal_engine = example_engine, risk_mgr = RiskManager_new example_ea EURUSD,
     res = BacktestResult_new \<rparr>"

definition example_bars :: "Bar list" where
  "example_bars = [\<lparr> b_time = Timestamp 1 0, b_high = 11, b_low = 11, b_close = 11 \<rparr>,
                   \<lparr> b_time = Timestamp 2 0, b_high = 12.5, b_low = 11.5, b_close = 12 \<rparr>]"

definition small_ea :: EAConfig where
  "small_ea = default_ea\<lparr> hurst_period := 2, vol_period := 2, vol_hist_period := 2 \<rparr>"

definition one_bar :: "Bar list" where
  "one_bar = [\<lparr> b_time = Timestamp 1 0, b_high = 1, b_low = 1, b_close = 1 \<rparr>]"

text \<open>
  A position before and after a step: the same position but for its stop, which has
  not moved against it, and which has moved only if it was positive.
\<close>

definition stop_tightened :: "Position \<Rightarrow> Position \<Rightarrow> bool" where
  "stop_tightened p p' =
     (p' = p\<lparr> stop_loss := stop_loss p' \<rparr> \<and>
      (ptype p = PT_BUY \<longrightarrow> stop_loss p \<le> stop_loss p') \<and>
      (ptype p = PT_SELL \<longrightarrow> stop_loss p' \<le> stop_loss p) \<and>
      (stop_loss p' \<noteq> stop_loss p \<longrightarrow> 0 < stop_loss p))"





section \<open>Properties\<close>

subsection \<open>The stop loss check\<close>

lemma sl_body_touched:
  "sl_touched lo hi p \<Longrightarrow>
   sl_body inst d i lo hi (r, c, idxs, b) (idx, p) =
     (r + sl_profit inst p, c @ [sl_trade inst d i p], idxs @ [idx], 0)"
  by (cases "ptype p") (auto simp: sl_body_def sl_touched_def sl_profit_def sl_trade_def Let_def algebra_simps)

lemma sl_body_untouched:
  "\<not> sl_touched lo hi p \<Longrightarrow> sl_body inst d i lo hi acc (idx, p) = acc"
  by (cases acc) (auto simp: sl_body_def sl_touched_def)

lemma sl_fold:
  "foldl (sl_body inst d i lo hi) (r, c, idxs, b) (enumerate k ps) =
     (r + sum_list (map (sl_profit inst) (filter (sl_touched lo hi) ps)),
      c @ map (sl_trade inst d i) (filter (sl_touched lo hi) ps),
      idxs @ map fst (filter (\<lambda>ip. sl_touched lo hi (snd ip)) (enumerate k ps)),
      if filter (sl_touched lo hi) ps = [] then b else 0)"
proof (induction ps arbitrary: r c idxs b k)
  case Nil
  show ?case by simp
next
  case (Cons p ps)
  show ?case
  proof (cases "sl_touched lo hi p")
    case True
    then show ?thesis
      by (simp add: sl_body_touched Cons.IH add.assoc)
  next
    case False
    then show ?thesis
      by (simp add: sl_body_untouched Cons.IH)
  qed
qed

lemma pop_body_Inl: "pop_body (Inl e) j = Inl e"
  by (simp add: pop_body_def bind_res_def)

lemma pop_body_Inr: "pop_body (Inr xs) j = py_pop xs j"
  by (simp add: pop_body_def bind_res_def)

lemma pop_fold_Inl: "foldl pop_body (Inl e) js = Inl e"
  by (induction js) (simp_all add: pop_body_Inl)

lemma pop_fold_append:
  "foldl pop_body (Inr xs) js = Inr zs \<Longrightarrow> foldl pop_body (Inr (xs @ ys)) js = Inr (zs @ ys)"
proof (induction js arbitrary: xs)
  case Nil
  then show ?case by simp
next
  case (Cons j js)
  show ?case
  proof (cases "j < length xs")
    case True
    with Cons.prems have "foldl pop_body (Inr (take j xs @ drop (Suc j) xs)) js = Inr zs"
      by (simp add: pop_body_Inr py_pop_def)
    from Cons.IH[OF this] True show ?thesis
      by (simp add: pop_body_Inr py_pop_def)
  next
    case False
    with Cons.prems show ?thesis
      by (simp add: pop_body_Inr py_pop_def pop_fold_Inl)
  qed
qed

lemma pop_touched:
  "foldl pop_body (Inr ps)
     (rev (map fst (filter (\<lambda>ip. P (snd ip)) (enumerate 0 ps)))) =
   Inr (filter (\<lambda>p. \<not> P p) ps)"
proof (induction ps rule: rev_induct)
  case Nil
  show ?case by simp
next
  case (snoc p ps)
  show ?case
  proof (cases "P p")
    case True
    then show ?thesis
      using snoc.IH by (simp add: enumerate_append_eq pop_body_Inr py_pop_def)
  next
    case False
    then show ?thesis
      using pop_fold_append[OF snoc.IH, of "[p]"] by (simp add: enumerate_append_eq)
  qed
qed

lemma sl_indices_sorted:
  "sort (map fst (filter Q (enumerate 0 ps))) = map fst (filter Q (enumerate 0 ps))"
proof -
  have "sorted (map fst (enumerate 0 ps))" by (simp add: map_fst_enumerate)
  then have "sorted (map fst (filter Q (enumerate 0 ps)))" by (rule sorted_filter)
  then show ?thesis by (rule sorted_sort_id)
qed

text \<open>
  Claim C1. The stop loss check of a bar closes exactly the positions whose stop is
  touched: a long one when the bar's low is at or below its stop, a short one when the
  bar's high is at or above its stop. Each of them leaves the open positions and adds
  one ClosedTrade, in the order of the positions, whose close price is the stop loss
  price itself, whose reason is \<^verbatim>\<open>stop_loss\<close> and whose profit is
  \<open>(stop - open price) * lots * contract size\<close>, negated for a short; the counter of
  bars since the last close becomes 0 when at least one position is closed. The other
  positions stay open, unchanged and in their order. The check never raises.
\<close>

theorem stop_loss_check_closes_at_stop:
  "stop_loss_check inst d i lo hi s =
     Inr (s\<lparr> realized_pnl :=
               realized_pnl s + sum_list (map (sl_profit inst) (filter (sl_touched lo hi) (positions s))),
             closed_trades :=
               closed_trades s @ map (sl_trade inst d i) (filter (sl_touched lo hi) (positions s)),
             positions := filter (\<lambda>p. \<not> sl_touched lo hi p) (positions s),
             bars_since_close :=
               (if filter (sl_touched lo hi) (positions s) = [] then bars_since_close s else 0) \<rparr>)
   \<and> ct_close_price (sl_trade inst d i p) = stop_loss p
   \<and> ct_close_reason (sl_trade inst d i p) = ''stop_loss''
   \<and> ct_profit (sl_trade inst d i p) = sl_profit inst p
   \<and> ct_ticket (sl_trade inst d i p) = ticket p
   \<and> ct_exit_bar_index (sl_trade inst d i p) = i"
proof -
  have idx: "sort (map fst (filter (\<lambda>ip. sl_touched lo hi (snd ip)) (enumerate 0 (positions s)))) =
      map fst (filter (\<lambda>ip. sl_touched lo hi (snd ip)) (enumerate 0 (positions s)))"
    by (rule sl_indices_sorted)
  have "stop_loss_check inst d i lo hi s =
     Inr (s\<lparr> realized_pnl :=
               realized_pnl s + sum_list (map (sl_profit inst) (filter (sl_touched lo hi) (positions s))),
             closed_trades :=
               closed_trades s @ map (sl_trade inst d i) (filter (sl_touched lo hi) (positions s)),
             positions := filter (\<lambda>p. \<not> sl_touched lo hi p) (positions s),
             bars_since_close :=
               (if filter (sl_touched lo hi) (positions s) = [] then bars_since_close s else 0) \<rparr>)"
    unfolding stop_loss_check_def sl_fold
    by (simp add: idx pop_touched bind_res_def)
  then show ?thesis
    by (simp add: sl_trade_def closed_trade_def)
qed

text \<open>
  The scenario of the specification: a long position with its stop at 1.0950 and a bar
  whose low is 1.0940. The position is closed at 1.0950, not at the low; the short
  position beside it, whose stop the bar's high does not reach, stays.
\<close>

theorem stop_loss_check_example:
  "(case stop_loss_check EURUSD (Timestamp 9 0) 7 1.0940 1.1000 sl_example_state of
      Inl e \<Rightarrow> False
    | Inr s' \<Rightarrow>
        positions s' = [short_example] \<and>
        map ct_ticket (closed_trades s') = [1] \<and>
        map ct_close_price (closed_trades s') = [1.0950] \<and>
        map ct_close_reason (closed_trades s') = [''stop_loss''] \<and>
        map ct_profit (closed_trades s') = [-50] \<and>
        bars_since_close s' = 0)"
proof -
  have t: "sl_touched 1.0940 1.1000 long_example" "\<not> sl_touched 1.0940 1.1000 short_example"
    by (simp_all add: sl_touched_def long_example_def short_example_def)
  have p: "sl_profit EURUSD long_example = -50"
    by (simp add: sl_profit_def long_example_def EURUSD_def)
  have ps: "positions sl_example_state = [long_example, short_example]"
    by (simp add: sl_example_state_def)
  have c: "closed_trades sl_example_state = []"
    by (simp add: sl_example_state_def initial_state_def)
  have tr: "ct_ticket (sl_trade EURUSD (Timestamp 9 0) 7 long_example) = 1"
    "ct_close_price (sl_trade EURUSD (Timestamp 9 0) 7 long_example) = 1.0950"
    "ct_close_reason (sl_trade EURUSD (Timestamp 9 0) 7 long_example) = ''stop_loss''"
    "ct_profit (sl_trade EURUSD (Timestamp 9 0) 7 long_example) = -50"
    using p by (simp_all add: sl_trade_def closed_trade_def long_example_def)
  have "stop_loss_check EURUSD (Timestamp 9 0) 7 1.0940 1.1000 sl_example_state =
      Inr (sl_example_state
            \<lparr> realized_pnl := realized_pnl sl_example_state + - 50,
              closed_trades := [sl_trade EURUSD (Timestamp 9 0) 7 long_example],
              positions := [short_example], bars_since_close := 0 \<rparr>)"
    using stop_loss_check_closes_at_stop
      [of EURUSD "Timestamp 9 0" 7 "1.0940" "1.1000" sl_example_state long_example] t
    by (simp add: ps c p)
  then show ?thesis
    using tr by simp
qed

subsection \<open>The innovation gate of the trend filter\<close>

text \<open>
  The example filter is the one that \<^verbatim>\<open>init(0.99, 2.0)\<close> and a first update with the
  price 100 produce.
\<close>

lemma kalman_example_reached:
  "kalman_update (kalman_init KalmanFilter_new 0.99 2) 100 = Inr kalman_example"
  by (simp add: kalman_update_def kalman_init_def KalmanFilter_new_def kalman_example_def Let_def)

text \<open>
  With a process noise that is not negative and a positive observation noise the
  covariance stays symmetric and positive semidefinite, so the innovation variance of
  an initialized filter is positive and no update raises.
\<close>

lemma psd_sum_nonneg:
  fixes a b c :: real
  assumes "0 \<le> a" "0 \<le> c" "b * b \<le> a * c"
  shows "0 \<le> a + 2 * b + c"
proof -
  have "(2 * b)\<^sup>2 \<le> 4 * (a * c)" using assms(3) by (simp add: power2_eq_square)
  also have "\<dots> \<le> (a + c)\<^sup>2"
  proof -
    have "0 \<le> (a - c)\<^sup>2" by simp
    then show ?thesis by (simp add: power2_eq_square algebra_simps)
  qed
  finally have "\<bar>2 * b\<bar> \<le> \<bar>a + c\<bar>" by (simp add: abs_le_square_iff)
  with assms(1,2) show ?thesis by linarith
qed

lemma kalman_ok_predicted:
  assumes "kalman_ok k" "initialized k"
  shows "P_pred01 k = P_pred10 k" "0 \<le> P_pred00 k" "0 \<le> P_pred11 k"
    "P_pred01 k * P_pred10 k \<le> P_pred00 k * P_pred11 k" "0 < innovation_cov k"
proof -
  define a b c q where "a = P00 k" and "b = P01 k" and "c = P11 k" and "q = Q00 k"
  from assms have f: "P10 k = b" "0 \<le> a" "0 \<le> c" "b * b \<le> a * c" "0 \<le> q" "0 \<le> Q11 k"
    "Q01 k = 0" "Q10 k = 0" "0 < R_obs k"
    by (auto simp: kalman_ok_def a_def b_def c_def q_def)
  have s: "0 \<le> a + 2 * b + c" using f(2,3,4) by (rule psd_sum_nonneg)
  show sym: "P_pred01 k = P_pred10 k"
    by (simp add: P_pred01_def P_pred10_def f b_def[symmetric] c_def[symmetric])
  have A: "P_pred00 k = a + 2 * b + c + q"
    by (simp add: P_pred00_def f a_def[symmetric] b_def[symmetric] c_def[symmetric] q_def[symmetric])
  show nn: "0 \<le> P_pred00 k" using s f(5) by (simp add: A)
  show "0 \<le> P_pred11 k" using f(3,6) by (simp add: P_pred11_def c_def[symmetric])
  have B: "P_pred10 k = b + c"
    by (simp add: P_pred10_def f c_def[symmetric])
  have C: "P_pred11 k = c + Q11 k" by (simp add: P_pred11_def c_def)
  have "P_pred00 k * P_pred11 k - P_pred10 k * P_pred10 k =
      (a * c - b * b) + (a + 2 * b + c) * Q11 k + q * c + q * Q11 k"
    by (simp add: A B C algebra_simps)
  moreover have "0 \<le> (a * c - b * b) + (a + 2 * b + c) * Q11 k + q * c + q * Q11 k"
  proof -
    have "0 \<le> a * c - b * b" using f(4) by simp
    moreover have "0 \<le> (a + 2 * b + c) * Q11 k" using s f(6) by (rule mult_nonneg_nonneg)
    moreover have "0 \<le> q * c" using f(5,3) by (rule mult_nonneg_nonneg)
    moreover have "0 \<le> q * Q11 k" using f(5,6) by (rule mult_nonneg_nonneg)
    ultimately show ?thesis by linarith
  qed
  ultimately show "P_pred01 k * P_pred10 k \<le> P_pred00 k * P_pred11 k"
    by (simp add: sym)
  show "0 < innovation_cov k" using nn f(9) by (simp add: innovation_cov_def)
qed


lemma corrected_psd:
  fixes A B C r :: real
  assumes "0 \<le> A" "0 \<le> C" "B * B \<le> A * C" "0 < r"
  defines "S \<equiv> A + r"
  shows "(1 - A / S) * B = - (B / S) * A + B"
    and "0 \<le> (1 - A / S) * A"
    and "0 \<le> - (B / S) * B + C"
    and "((1 - A / S) * B) * (- (B / S) * A + B) \<le> ((1 - A / S) * A) * (- (B / S) * B + C)"
proof -
  have S: "0 < S" using assms(1,4) by (simp add: S_def)
  have g: "1 - A / S = r / S" using S by (simp add: S_def field_simps)
  show e: "(1 - A / S) * B = - (B / S) * A + B"
    using S by (simp add: field_simps)
  show "0 \<le> (1 - A / S) * A"
    unfolding g using assms(1,4) S by simp
  have c: "- (B / S) * B + C = ((A * C - B * B) + C * r) / S"
    using S by (simp add: S_def field_simps)
  have n: "0 \<le> (A * C - B * B) + C * r"
    using assms(2,3,4) by (simp add: add_nonneg_nonneg)
  show "0 \<le> - (B / S) * B + C"
    unfolding c using n S by simp
  have d: "((1 - A / S) * A) * (- (B / S) * B + C) - ((1 - A / S) * B) * (- (B / S) * A + B) =
      (r / S) * (A * C - B * B)"
  proof -
    have "((1 - A / S) * A) * (- (B / S) * B + C) - ((1 - A / S) * B) * (- (B / S) * A + B) =
        (1 - A / S) * (A * C - B * B)"
      by (simp add: algebra_simps)
    then show ?thesis by (simp add: g)
  qed
  have "0 \<le> (r / S) * (A * C - B * B)"
    using assms(3,4) S by (intro mult_nonneg_nonneg) simp_all
  with d show "((1 - A / S) * B) * (- (B / S) * A + B) \<le> ((1 - A / S) * A) * (- (B / S) * B + C)"
    by linarith
qed

lemma kalman_update_ok:
  assumes ok: "kalman_ok k"
  shows "\<exists>k'. kalman_update k price = Inr k' \<and> kalman_ok k' \<and> initialized k'"
proof (cases "initialized k")
  case False
  with ok show ?thesis
    by (simp add: kalman_update_def kalman_ok_def Let_def)
next
  case True
  note p = kalman_ok_predicted[OF ok True]
  from ok have q: "0 \<le> Q00 k" "0 \<le> Q11 k" "Q01 k = 0" "Q10 k = 0" "0 < R_obs k"
    by (simp_all add: kalman_ok_def)
  have S: "\<not> innovation_cov k < 0" "innovation_cov k \<noteq> 0" using p(5) by simp_all
  show ?thesis
  proof (cases "\<bar>innovation k price\<bar> > 3 * sqrt (innovation_cov k)")
    case out: True
    with True S p q show ?thesis
      by (simp add: kalman_update_def kalman_ok_def Let_def)
  next
    case inl: False
    note c = corrected_psd[OF p(2) p(3) p(4)[unfolded p(1)] q(5),
        folded innovation_cov_def]
    from True S inl have "kalman_update k price =
        Inr (k\<lparr> state0 := x_pred0 k + P_pred00 k / innovation_cov k * innovation k price,
                state1 := x_pred1 k + P_pred10 k / innovation_cov k * innovation k price,
                P00 := (1 - P_pred00 k / innovation_cov k) * P_pred00 k,
                P01 := (1 - P_pred00 k / innovation_cov k) * P_pred01 k,
                P10 := - (P_pred10 k / innovation_cov k) * P_pred00 k + P_pred10 k,
                P11 := - (P_pred10 k / innovation_cov k) * P_pred01 k + P_pred11 k \<rparr>)"
      by (simp add: kalman_update_def Let_def)
    moreover have "kalman_ok (k\<lparr> state0 := x_pred0 k + P_pred00 k / innovation_cov k * innovation k price,
                state1 := x_pred1 k + P_pred10 k / innovation_cov k * innovation k price,
                P00 := (1 - P_pred00 k / innovation_cov k) * P_pred00 k,
                P01 := (1 - P_pred00 k / innovation_cov k) * P_pred01 k,
                P10 := - (P_pred10 k / innovation_cov k) * P_pred00 k + P_pred10 k,
                P11 := - (P_pred10 k / innovation_cov k) * P_pred01 k + P_pred11 k \<rparr>)"
      using c q True by (simp add: kalman_ok_def p(1))
    ultimately show ?thesis using True by simp
  qed
qed


lemma kalman_init_ok:
  "0 \<le> process_noise \<Longrightarrow> 0 < observ_noise \<Longrightarrow>
   kalman_ok (kalman_init k process_noise observ_noise)"
  by (simp add: kalman_ok_def kalman_init_def)

lemma kalman_ok_cov_positive: "kalman_ok k \<Longrightarrow> initialized k \<Longrightarrow> 0 < innovation_cov k"
  by (rule kalman_ok_predicted(5))

lemma kalman_updates_ok:
  "kalman_ok k \<Longrightarrow> \<exists>k'. kalman_updates prices k = Inr k' \<and> kalman_ok k'"
proof (induction prices arbitrary: k)
  case Nil
  then show ?case by simp
next
  case (Cons price prices)
  from kalman_update_ok[OF Cons.prems] obtain k1 where
    k1: "kalman_update k price = Inr k1" "kalman_ok k1" by blast
  from Cons.IH[OF k1(2)] k1(1) show ?case by simp
qed

text \<open>
  Claim C2. An update of an initialized filter, with the predicted level
  \<open>level + slope\<close>, the innovation \<open>y = price - (level + slope)\<close> and the innovation
  variance \<open>S = P_pred00 + R\<close>: when \<open>|y| > 3 * sqrt S\<close> the filter commits exactly the
  predicted state and the predicted covariance and corrects nothing; otherwise the new
  level is the predicted level plus \<open>K0 * y\<close> and the new slope is the slope plus
  \<open>K1 * y\<close>, with the gains \<open>K0 = P_pred00 / S\<close> and \<open>K1 = P_pred10 / S\<close>. The square
  root and the gains of the claim need \<open>S\<close> not to be negative, and not to be zero where
  the gains are taken: that is what the two hypotheses on \<open>S\<close> say. They hold on every
  filter that \<^verbatim>\<open>init\<close> with a proper noise configuration and any updates have
  produced (\<open>kalman_ok_cov_positive\<close>, \<open>kalman_updates_ok\<close>); outside them
  \<^verbatim>\<open>math.sqrt\<close> or the division raises (\<open>kalman_update_raises\<close> below).
\<close>

theorem kalman_update_gate:
  assumes init: "initialized k"
    and S_nonneg: "0 \<le> innovation_cov k"
  shows "(\<bar>innovation k price\<bar> > 3 * sqrt (innovation_cov k) \<longrightarrow>
            kalman_update k price =
              Inr (k\<lparr> state0 := state0 k + state1 k, state1 := state1 k,
                      P00 := P_pred00 k, P01 := P_pred01 k,
                      P10 := P_pred10 k, P11 := P_pred11 k \<rparr>)) \<and>
         (\<not> \<bar>innovation k price\<bar> > 3 * sqrt (innovation_cov k) \<longrightarrow>
          innovation_cov k \<noteq> 0 \<longrightarrow>
            (\<exists>k'. kalman_update k price = Inr k' \<and>
              get_level k' =
                (state0 k + state1 k) + (P_pred00 k / innovation_cov k) * innovation k price \<and>
              get_slope k' =
                state1 k + (P_pred10 k / innovation_cov k) * innovation k price))"
proof (intro conjI impI)
  assume out: "\<bar>innovation k price\<bar> > 3 * sqrt (innovation_cov k)"
  from S_nonneg have "\<not> innovation_cov k < 0" by simp
  with init out show "kalman_update k price =
      Inr (k\<lparr> state0 := state0 k + state1 k, state1 := state1 k,
              P00 := P_pred00 k, P01 := P_pred01 k,
              P10 := P_pred10 k, P11 := P_pred11 k \<rparr>)"
    by (simp add: kalman_update_def Let_def x_pred0_def x_pred1_def)
next
  assume inl: "\<not> \<bar>innovation k price\<bar> > 3 * sqrt (innovation_cov k)"
    and nz: "innovation_cov k \<noteq> 0"
  from S_nonneg have "\<not> innovation_cov k < 0" by simp
  with init inl nz show "\<exists>k'. kalman_update k price = Inr k' \<and>
      get_level k' =
        (state0 k + state1 k) + (P_pred00 k / innovation_cov k) * innovation k price \<and>
      get_slope k' =
        state1 k + (P_pred10 k / innovation_cov k) * innovation k price"
    by (simp add: kalman_update_def Let_def x_pred0_def x_pred1_def get_level_def get_slope_def)
qed

lemma kalman_update_raises:
  assumes "initialized k"
  shows "innovation_cov k < 0 \<Longrightarrow> kalman_update k price = Inl ValueError"
    and "innovation_cov k = 0 \<Longrightarrow> innovation k price = 0 \<Longrightarrow>
           kalman_update k price = Inl ZeroDivisionError"
  using assms by (simp_all add: kalman_update_def Let_def)

lemma kalman_example_cov: "innovation_cov kalman_example = 4"
  by (simp add: innovation_cov_def P_pred00_def kalman_example_def)

text \<open>
  On the example filter \<open>S\<close> is 4 and the gate stands at 6: the price 107 is an outlier
  and only the prediction is committed, the price 102 is corrected with the gains 0.5
  and 0.0025.
\<close>

theorem kalman_update_gate_example:
  "kalman_update kalman_example 107 =
     Inr (kalman_example\<lparr> state0 := 100, state1 := 0,
            P00 := 2, P01 := 0.01, P10 := 0.01, P11 := 1 \<rparr>) \<and>
   (\<exists>k'. kalman_update kalman_example 102 = Inr k' \<and> get_level k' = 101 \<and>
         get_slope k' = 0.005)"
proof -
  have i: "initialized kalman_example" by (simp add: kalman_example_def)
  have S: "innovation_cov kalman_example = 4" by (rule kalman_example_cov)
  have s2: "sqrt 4 = 2" by simp
  have y1: "innovation kalman_example 107 = 7" and y2: "innovation kalman_example 102 = 2"
    by (simp_all add: innovation_def x_pred0_def kalman_example_def)
  have p: "P_pred00 kalman_example = 2" "P_pred01 kalman_example = 0.01"
    "P_pred10 kalman_example = 0.01" "P_pred11 kalman_example = 1"
    by (simp_all add: P_pred00_def P_pred01_def P_pred10_def P_pred11_def kalman_example_def)
  have st: "state0 kalman_example = 100" "state1 kalman_example = 0"
    by (simp_all add: kalman_example_def)
  have a: "kalman_update kalman_example 107 =
     Inr (kalman_example\<lparr> state0 := 100, state1 := 0,
            P00 := 2, P01 := 0.01, P10 := 0.01, P11 := 1 \<rparr>)"
    using kalman_update_gate[of kalman_example 107] i
    by (simp add: S y1 p st)
  have b: "\<exists>k'. kalman_update kalman_example 102 = Inr k' \<and> get_level k' = 101 \<and>
         get_slope k' = 0.005"
    using kalman_update_gate[of kalman_example 102] i
    by (simp add: S y2 p st)
  from a b show ?thesis by simp
qed

subsection \<open>Position sizing\<close>

lemma calc_margin_eq:
  "leverage (rm_ea rm) \<noteq> 0 \<Longrightarrow>
   calc_margin rm l price = Inr (requiredMargin (rm_ea rm) (rm_inst rm) l price)"
  by (simp add: calc_margin_def py_div_def requiredMargin_def)

lemma used_fold:
  "leverage (rm_ea rm) \<noteq> 0 \<Longrightarrow>
   foldl (used_body rm) (Inr t) ps = Inr (t + usedMargin (rm_ea rm) (rm_inst rm) ps)"
proof (induction ps arbitrary: t)
  case Nil
  show ?case by (simp add: usedMargin_def)
next
  case (Cons p ps)
  have "used_body rm (Inr t) p =
      Inr (t + requiredMargin (rm_ea rm) (rm_inst rm) (lots p) (open_price p))"
    using Cons.prems by (simp add: used_body_def bind_res_def calc_margin_eq)
  then show ?case
    using Cons.IH[OF Cons.prems] by (simp add: usedMargin_def add.assoc)
qed

lemma get_free_margin_eq:
  "leverage (rm_ea rm) \<noteq> 0 \<Longrightarrow>
   get_free_margin rm eq ps = Inr (freeMargin (rm_ea rm) (rm_inst rm) eq ps)"
  by (simp add: get_free_margin_def get_used_margin_def used_fold bind_res_def freeMargin_def)

text \<open>
  Claim C3. \<^verbatim>\<open>calc_lots\<close> computes the size that the specification describes: 0 when
  the stop distance or the point value is not positive; otherwise the base size
  \<open>(equity * riskPerTrade) / (stopPoints * pointValue)\<close> times 0.5 (LOW), 0.7 (HIGH) or
  1.0 (NORMAL), rounded down to the lot step and clamped to the lot bounds; and when the
  margin required for that size exceeds the free margin, 0 for a free margin that is
  not positive, else \<open>freeMargin * leverage / (contractSize * entryPrice)\<close> rounded down
  to the lot step, or 0 when that is below the minimum lot. The margin divides by the
  leverage and the rounding divides by the lot step, so the statement is for a nonzero
  leverage and a positive lot step, as every instrument preset and the default account
  have them.
\<close>

theorem calc_lots_sizing:
  assumes lev: "leverage (rm_ea rm) \<noteq> 0"
    and step: "0 < lot_step (rm_inst rm)"
  shows "calc_lots rm stop_points regime eq ps entry_price =
           Inr (sizePosition (rm_ea rm) (rm_inst rm) stop_points regime eq ps entry_price)"
proof (cases "stop_points \<le> 0 \<or> point_value (rm_inst rm) \<le> 0")
  case True
  then show ?thesis
    by (auto simp: calc_lots_def sizePosition_def Let_def)
next
  case False
  define ea where "ea = rm_ea rm"
  define inst where "inst = rm_inst rm"
  define base where "base = (eq * risk_per_trade ea) / (stop_points * point_value inst)"
  define size where "size = min (max (round_down_to_step (lot_step inst)
      (base * regime_multiplier regime)) (min_lot inst)) (max_lot inst)"
  define free where "free = freeMargin ea inst eq ps"
  have l1: "(if regime = LOW then base * 0.5 else if regime = HIGH then base * 0.7 else base) =
      base * regime_multiplier regime"
    by (cases regime) (simp_all add: regime_multiplier_def)
  have norm: "\<And>x. normalize_step (lot_step inst) x = round_down_to_step (lot_step inst) x"
    using step by (simp add: normalize_step_def round_down_to_step_def inst_def)
  have nz: "contract_size inst * entry_price \<noteq> 0"
    if "requiredMargin ea inst size entry_price > free" "\<not> free \<le> 0"
    using that by (auto simp: requiredMargin_def)
  have code: "calc_lots rm stop_points regime eq ps entry_price =
      (if requiredMargin ea inst size entry_price > free then
         (if free \<le> 0 then Inr 0
          else
            bind_res (py_div (free * real_of_int (leverage ea)) (contract_size inst * entry_price))
              (\<lambda>l5. let l6 = normalize_step (lot_step inst) l5 in
                     if l6 < min_lot inst then Inr 0 else Inr l6))
       else Inr size)"
    using False lev
    by (simp add: calc_lots_def Let_def get_free_margin_eq calc_margin_eq bind_res_def
        l1[unfolded base_def ea_def inst_def] norm[unfolded inst_def]
        size_def base_def free_def ea_def inst_def)
  have spec: "sizePosition ea inst stop_points regime eq ps entry_price =
      (if requiredMargin ea inst size entry_price > free then
         (if free \<le> 0 then 0
          else
            (let shrunk = round_down_to_step (lot_step inst)
                            (free * real_of_int (leverage ea) / (contract_size inst * entry_price))
             in if shrunk < min_lot inst then 0 else shrunk))
       else size)"
    using False by (simp add: sizePosition_def Let_def size_def base_def free_def inst_def)
  show ?thesis
  proof (cases "requiredMargin ea inst size entry_price > free \<and> \<not> free \<le> 0")
    case True
    with nz have "contract_size inst * entry_price \<noteq> 0" by blast
    with True show ?thesis
      unfolding code spec ea_def[symmetric] inst_def[symmetric]
      by (simp add: py_div_def bind_res_def norm Let_def)
  next
    case False
    then show ?thesis
      unfolding code spec ea_def[symmetric] inst_def[symmetric]
      by auto
  qed
qed

text \<open>
  Two calls on the default account and EURUSD: a stop of 500 points on an equity of
  10000 gives 0.2 lots; a stop of 1 point on an equity of 1000 asks for 10 lots, whose
  margin exceeds the free margin, and the size shrinks to 0.9 lots.
\<close>

theorem calc_lots_sizing_example:
  "calc_lots (RiskManager_new default_ea EURUSD) 500 NORMAL 10000 [] 1.1 = Inr 0.2 \<and>
   calc_lots (RiskManager_new default_ea EURUSD) 1 NORMAL 1000 [] 1.1 = Inr 0.9"
proof -
  have lev: "leverage (rm_ea (RiskManager_new default_ea EURUSD)) \<noteq> 0"
    by (simp add: RiskManager_new_def default_ea_def)
  have step: "0 < lot_step (rm_inst (RiskManager_new default_ea EURUSD))"
    by (simp add: RiskManager_new_def EURUSD_def)
  have f1: "\<lfloor>(20::real)\<rfloor> = 20" by simp
  have f2: "\<lfloor>(1000::real)\<rfloor> = 1000" by simp
  have f3: "\<lfloor>(1000 / 11::real)\<rfloor> = 90" by simp
  have a: "sizePosition default_ea EURUSD 500 NORMAL 10000 [] 1.1 = 0.2"
    by (simp add: sizePosition_def Let_def round_down_to_step_def regime_multiplier_def
        freeMargin_def usedMargin_def requiredMargin_def default_ea_def EURUSD_def f1)
  have b: "sizePosition default_ea EURUSD 1 NORMAL 1000 [] 1.1 = 0.9"
    by (simp add: sizePosition_def Let_def round_down_to_step_def regime_multiplier_def
        freeMargin_def usedMargin_def requiredMargin_def default_ea_def EURUSD_def f2 f3)
  show ?thesis
    using calc_lots_sizing[OF lev step, of 500 NORMAL 10000 "[]" "1.1"]
      calc_lots_sizing[OF lev step, of 1 NORMAL 1000 "[]" "1.1"] a b
    by (simp add: RiskManager_new_def)
qed

subsection \<open>Bars with a price that is not positive\<close>

text \<open>
  Claim C4 (the counterexample). The trend filter has no guard on the price: on the
  example filter an update with the price 0 is an outlier like any other, and the
  filter commits the predicted covariance. Its state is not what it was.
\<close>

theorem kalman_update_nonpositive_price_counterexample:
  "kalman_update kalman_example 0 =
     Inr (kalman_example\<lparr> P00 := 2, P01 := 0.01, P10 := 0.01, P11 := 1 \<rparr>) \<and>
   kalman_example\<lparr> P00 := 2, P01 := 0.01, P10 := 0.01, P11 := 1 \<rparr> \<noteq> kalman_example"
proof -
  have s2: "sqrt 4 = 2" by simp
  have S: "innovation_cov kalman_example = 4"
    by (simp add: innovation_cov_def P_pred00_def kalman_example_def)
  have y: "innovation kalman_example 0 = - 100"
    by (simp add: innovation_def x_pred0_def kalman_example_def)
  have "kalman_update kalman_example 0 =
     Inr (kalman_example\<lparr> state0 := x_pred0 kalman_example, state1 := x_pred1 kalman_example,
            P00 := P_pred00 kalman_example, P01 := P_pred01 kalman_example,
            P10 := P_pred10 kalman_example, P11 := P_pred11 kalman_example \<rparr>)"
    unfolding kalman_update_def Let_def S y
    by (simp add: kalman_example_def)
  moreover have "x_pred0 kalman_example = 100" "x_pred1 kalman_example = 0"
    "P_pred00 kalman_example = 2" "P_pred01 kalman_example = 0.01"
    "P_pred10 kalman_example = 0.01" "P_pred11 kalman_example = 1"
    by (simp_all add: x_pred0_def x_pred1_def P_pred00_def P_pred01_def P_pred10_def
        P_pred11_def kalman_example_def)
  ultimately show ?thesis
    by (simp add: kalman_example_def)
qed

text \<open>
  Claim C4 (as amended). The trend strength estimator and the volatility classifier
  ignore an update whose close or previous close is not positive: the call returns
  without an error and leaves the whole object as it was. The trend filter takes the
  close alone and has no such guard, so a bar of the signal engine with such a price
  is the update of the filter and nothing else.
\<close>

theorem nonpositive_price_skipped:
  assumes "prev_close \<le> 0 \<or> close \<le> 0"
  shows "hurst_update h close prev_close = Inr h \<and>
         vol_update v close prev_close = Inr v \<and>
         on_new_bar se close prev_close =
           bind_res (kalman_update (m_kalman se) close) (\<lambda>k. Inr (se\<lparr> m_kalman := k \<rparr>))"
proof -
  have h: "hurst_update (m_hurst se) close prev_close = Inr (m_hurst se)"
    and v: "vol_update (m_vol_regime se) close prev_close = Inr (m_vol_regime se)"
    using assms by (simp_all add: hurst_update_def vol_update_def)
  have "on_new_bar se close prev_close =
      bind_res (kalman_update (m_kalman se) close) (\<lambda>k. Inr (se\<lparr> m_kalman := k \<rparr>))"
    by (cases "kalman_update (m_kalman se) close") (simp_all add: on_new_bar_def h v bind_res_def)
  with assms show ?thesis
    by (simp add: hurst_update_def vol_update_def)
qed

theorem nonpositive_price_skipped_example:
  "hurst_update (hurst_init HurstExponent_new 3) 0 1 = Inr (hurst_init HurstExponent_new 3) \<and>
   vol_update (vol_init VolatilityRegime_new 2 5) 1 (- 1) = Inr (vol_init VolatilityRegime_new 2 5)"
  using nonpositive_price_skipped[of 1 0 "hurst_init HurstExponent_new 3" v se]
    nonpositive_price_skipped[of "- 1" 1 h "vol_init VolatilityRegime_new 2 5" se]
  by simp

subsection \<open>The percentile of the volatility classifier\<close>

lemma vol_example_reached:
  "vol_update (vol_init VolatilityRegime_new 2 5) 1 1 = Inr vol_example"
  by (simp add: vol_update_def vol_init_def VolatilityRegime_new_def vol_example_def py_log_def
      bind_res_def vol_push_return_def set_item_def vol_realized_def eval_nat_numeral)

lemma get_items_upt:
  "get_items xs [0..<n] = Inr ys \<Longrightarrow> ys = take n xs \<and> n \<le> length xs"
proof -
  assume a: "get_items xs [0..<n] = Inr ys"
  have le: "n \<le> length xs"
  proof (rule ccontr)
    assume "\<not> n \<le> length xs"
    then have "length xs \<in> set [0..<n]" by simp
    then have "\<not> list_all (\<lambda>i. i < length xs) [0..<n]"
      unfolding list_all_iff by blast
    with a show False by (simp add: get_items_def)
  qed
  then have "list_all (\<lambda>i. i < length xs) [0..<n]"
    by (simp add: list_all_iff)
  with a have "ys = map (\<lambda>i. xs ! i) [0..<n]" by (simp add: get_items_def)
  also have "\<dots> = take n xs"
    using le by (intro nth_equalityI) simp_all
  finally show ?thesis using le by simp
qed

lemma vol_push_return_keeps:
  "vol_push_return v r = Inr v1 \<Longrightarrow>
   vol_history v1 = vol_history v \<and> vol_count v1 = vol_count v \<and> vol_head v1 = vol_head v \<and>
   v_hist_period v1 = v_hist_period v \<and> percentile v1 = percentile v \<and>
   current_vol v1 = current_vol v"
  by (auto simp: vol_push_return_def bind_res_def set_item_def split: if_splits)

lemma vol_realized_keeps:
  "vol_realized v1 = Inr v2 \<Longrightarrow>
   vol_history v2 = vol_history v1 \<and> vol_count v2 = vol_count v1 \<and> vol_head v2 = vol_head v1 \<and>
   v_hist_period v2 = v_hist_period v1 \<and> percentile v2 = percentile v1"
  by (auto simp: vol_realized_def bind_res_def get_items_def Let_def split: if_splits)

lemma vol_push_history_result:
  "vol_push_history v2 = Inr v3 \<Longrightarrow>
   (if vol_count v2 < v_hist_period v2
    then vol_history v3 = (vol_history v2)[vol_count v2 := current_vol v2] \<and>
         vol_count v3 = vol_count v2 + 1 \<and> vol_head v3 = vol_head v2
    else vol_history v3 = (vol_history v2)[vol_head v2 := current_vol v2] \<and>
         vol_count v3 = vol_count v2 \<and>
         vol_head v3 = (vol_head v2 + 1) mod v_hist_period v2) \<and>
   v_hist_period v3 = v_hist_period v2 \<and> percentile v3 = percentile v2 \<and>
   current_vol v3 = current_vol v2"
  by (auto simp: vol_push_history_def bind_res_def set_item_def split: if_splits)

lemma vol_rank_result:
  "vol_rank v3 = Inr v4 \<Longrightarrow>
   vol_history v4 = vol_history v3 \<and> vol_count v4 = vol_count v3 \<and> vol_head v4 = vol_head v3 \<and>
   v_hist_period v4 = v_hist_period v3 \<and> current_vol v4 = current_vol v3 \<and>
   (if 2 \<le> vol_count v3
    then percentile v4 =
           real (length (filter (\<lambda>h. h < current_vol v3)
                   (take (min (vol_count v3) (v_hist_period v3)) (vol_history v3)))) /
           real (min (vol_count v3) (v_hist_period v3))
    else percentile v4 = percentile v3)"
proof (cases "2 \<le> vol_count v3")
  case False
  assume "vol_rank v3 = Inr v4"
  with False show ?thesis by (simp add: vol_rank_def)
next
  case True
  assume a: "vol_rank v3 = Inr v4"
  define n where "n = min (vol_count v3) (v_hist_period v3)"
  from a True obtain hs where hs: "get_items (vol_history v3) [0..<n] = Inr hs"
    by (cases "get_items (vol_history v3) [0..<n]")
       (simp_all add: vol_rank_def Let_def bind_res_def n_def)
  from get_items_upt[OF hs] have hs_eq: "hs = take n (vol_history v3)" by simp
  from a True hs have "n \<noteq> 0 \<and> v4 = v3\<lparr> percentile :=
      real (length (filter (\<lambda>h. h < current_vol v3) hs)) / real n \<rparr>"
    by (simp add: vol_rank_def Let_def bind_res_def n_def[symmetric] split: if_splits)
  with True hs_eq show ?thesis by (simp add: n_def)
qed

text \<open>
  Claim C5 (as amended). An update with positive prices that returns with a positive
  current volatility has pushed that volatility into the history buffer (at the next
  free place, or over the oldest value once the buffer is full). When the buffer then
  holds at least two values, the stored percentile is the number of buffered history
  values strictly below the current volatility, divided by the number of buffered
  values. When it holds only one, the first value ever pushed, the percentile is not
  computed and keeps the value it had (0.5 after \<^verbatim>\<open>init\<close>).
\<close>

theorem vol_update_percentile:
  assumes pos: "0 < close" "0 < prev_close"
    and upd: "vol_update v close prev_close = Inr v'"
    and vol: "0 < current_vol v'"
  shows "(if vol_count v < v_hist_period v
          then vol_history v' = (vol_history v)[vol_count v := current_vol v'] \<and>
               vol_count v' = vol_count v + 1
          else vol_history v' = (vol_history v)[vol_head v := current_vol v'] \<and>
               vol_count v' = vol_count v) \<and>
         (if 2 \<le> vol_count v'
          then percentile v' =
                 real (length (filter (\<lambda>h. h < current_vol v')
                         (take (min (vol_count v') (v_hist_period v')) (vol_history v')))) /
                 real (min (vol_count v') (v_hist_period v'))
          else percentile v' = percentile v)"
proof -
  from pos have q: "\<not> close / prev_close \<le> 0" by (simp add: not_le)
  from upd pos q obtain v1 where v1: "vol_push_return v (ln (close / prev_close)) = Inr v1"
    by (cases "vol_push_return v (ln (close / prev_close))")
       (simp_all add: vol_update_def py_log_def bind_res_def)
  from upd pos q v1 obtain v2 where v2: "vol_realized v1 = Inr v2"
    by (cases "vol_realized v1") (simp_all add: vol_update_def py_log_def bind_res_def)
  have rest: "(if current_vol v2 > 0 then bind_res (vol_push_history v2) vol_rank else Inr v2) = Inr v'"
    using upd pos q v1 v2 by (simp add: vol_update_def py_log_def bind_res_def)
  have cur: "current_vol v2 > 0"
  proof (rule ccontr)
    assume "\<not> current_vol v2 > 0"
    with rest have "v' = v2" by simp
    with vol \<open>\<not> current_vol v2 > 0\<close> show False by simp
  qed
  with rest obtain v3 where v3: "vol_push_history v2 = Inr v3" and v4: "vol_rank v3 = Inr v'"
    by (cases "vol_push_history v2") (simp_all add: bind_res_def)
  note k1 = vol_push_return_keeps[OF v1]
  note k2 = vol_realized_keeps[OF v2]
  note k3 = vol_push_history_result[OF v3]
  note k4 = vol_rank_result[OF v4]
  have c: "current_vol v' = current_vol v2" using k3 k4 by simp
  show ?thesis
  proof (cases "vol_count v < v_hist_period v")
    case True
    then have "vol_count v2 < v_hist_period v2" using k1 k2 by simp
    with k3 have "vol_history v3 = (vol_history v2)[vol_count v2 := current_vol v2]"
      "vol_count v3 = vol_count v2 + 1" by simp_all
    with True k1 k2 k3 k4 c show ?thesis by (simp split: if_splits)
  next
    case False
    then have "\<not> vol_count v2 < v_hist_period v2" using k1 k2 by simp
    with k3 have "vol_history v3 = (vol_history v2)[vol_head v2 := current_vol v2]"
      "vol_count v3 = vol_count v2" by simp_all
    with False k1 k2 k3 k4 c show ?thesis by (simp split: if_splits)
  qed
qed

lemma ln2_pos: "0 < ln (2::real)"
  by simp

lemma sqrt_first: "sqrt ((ln 2 / 2 * (ln 2 / 2) + (ln 2 - ln 2 / 2) * (ln 2 - ln 2 / 2)) / 2) = ln (2::real) / 2"
proof -
  have "(ln 2 / 2 * (ln 2 / 2) + (ln 2 - ln 2 / 2) * (ln 2 - ln 2 / 2)) / 2 = (ln (2::real) / 2)\<^sup>2"
    by (simp add: power2_eq_square field_simps)
  then show ?thesis by (simp del: ln_ge_zero_iff)
qed

lemma vol_first_push: "vol_update vol_example 2 1 = Inr vol_example2"
proof -
  have r: "vol_push_return vol_example (ln 2) =
      Inr (vol_example\<lparr> v_returns := [0, ln 2], ret_count := 2 \<rparr>)"
    by (simp add: vol_push_return_def vol_example_def set_item_def bind_res_def)
  have gi: "get_items [0, ln (2::real)] [0..<2] = Inr [0, ln 2]"
    by (simp add: get_items_def eval_nat_numeral upt_rec)
  have v: "vol_realized (vol_example\<lparr> v_returns := [0, ln 2], ret_count := 2 \<rparr>) =
      Inr (vol_example\<lparr> v_returns := [0, ln 2], ret_count := 2, current_vol := ln 2 / 2 \<rparr>)"
    using sqrt_first
    by (simp add: vol_realized_def vol_example_def gi bind_res_def Let_def)
  have h: "vol_push_history (vol_example\<lparr> v_returns := [0, ln 2], ret_count := 2,
         current_vol := ln 2 / 2 \<rparr>) =
      Inr (vol_example\<lparr> v_returns := [0, ln 2], ret_count := 2, current_vol := ln 2 / 2,
             vol_history := [ln 2 / 2, 0, 0, 0, 0], vol_count := Suc 0 \<rparr>)"
    by (simp add: vol_push_history_def vol_example_def set_item_def bind_res_def)
  have k: "vol_rank (vol_example\<lparr> v_returns := [0, ln 2], ret_count := 2, current_vol := ln 2 / 2,
             vol_history := [ln 2 / 2, 0, 0, 0, 0], vol_count := Suc 0 \<rparr>) = Inr vol_example2"
    by (simp add: vol_rank_def vol_example_def vol_example2_def)
  have c: "0 < current_vol (vol_example\<lparr> v_returns := [0, ln 2], ret_count := 2,
         current_vol := ln 2 / 2 \<rparr>)"
    by simp
  show ?thesis
    unfolding vol_update_def
    using c by (simp add: py_log_def r v h k bind_res_def)
qed

text \<open>
  Claim C5 (the counterexample). The first value pushed into the history: the closes
  1, 1, 2 give the volatility \<open>ln 2 / 2\<close>, which is pushed as the only history value.
  No buffered value is strictly below it, so the count divided by the length is 0, but
  the stored percentile is still the initial 0.5.
\<close>

theorem vol_first_percentile_counterexample:
  "vol_update vol_example 2 1 = Inr vol_example2 \<and>
   0 < current_vol vol_example2 \<and>
   vol_count vol_example2 = 1 \<and>
   percentile vol_example2 = 1 / 2 \<and>
   real (length (filter (\<lambda>h. h < current_vol vol_example2)
           (take (vol_count vol_example2) (vol_history vol_example2)))) /
     real (vol_count vol_example2) = 0"
  using vol_first_push by (simp add: vol_example2_def)

lemma sqrt_second: "sqrt ((ln 2 * ln 2 + ln 2 * ln 2) / 2) = ln (2::real)"
proof -
  have "(ln 2 * ln 2 + ln 2 * ln 2) / 2 = (ln (2::real))\<^sup>2"
    by (simp add: power2_eq_square)
  then show ?thesis by (simp del: ln_ge_zero_iff)
qed

lemma vol_second_push: "vol_update vol_example2 1 2 = Inr vol_example3"
proof -
  have l: "ln (1 / 2 :: real) = - ln 2"
    by (simp add: ln_div)
  have r: "vol_push_return vol_example2 (- ln 2) =
      Inr (vol_example2\<lparr> v_returns := [- ln 2, ln 2], ret_head := Suc 0 \<rparr>)"
    by (simp add: vol_push_return_def vol_example2_def set_item_def bind_res_def)
  have gi: "get_items [- ln (2::real), ln 2] [0..<2] = Inr [- ln 2, ln 2]"
    by (simp add: get_items_def eval_nat_numeral upt_rec)
  have v: "vol_realized (vol_example2\<lparr> v_returns := [- ln 2, ln 2], ret_head := Suc 0 \<rparr>) =
      Inr (vol_example2\<lparr> v_returns := [- ln 2, ln 2], ret_head := Suc 0, current_vol := ln 2 \<rparr>)"
    using sqrt_second
    by (simp add: vol_realized_def vol_example2_def gi bind_res_def Let_def)
  have h: "vol_push_history (vol_example2\<lparr> v_returns := [- ln 2, ln 2], ret_head := Suc 0,
         current_vol := ln 2 \<rparr>) =
      Inr (vol_example2\<lparr> v_returns := [- ln 2, ln 2], ret_head := Suc 0, current_vol := ln 2,
             vol_history := [ln 2 / 2, ln 2, 0, 0, 0], vol_count := 2 \<rparr>)"
    by (simp add: vol_push_history_def vol_example2_def set_item_def bind_res_def)
  have gh: "get_items [ln (2::real) / 2, ln 2, 0, 0, 0] [0..<2] = Inr [ln 2 / 2, ln 2]"
    by (simp add: get_items_def eval_nat_numeral upt_rec)
  have k: "vol_rank (vol_example2\<lparr> v_returns := [- ln 2, ln 2], ret_head := Suc 0, current_vol := ln 2,
             vol_history := [ln 2 / 2, ln 2, 0, 0, 0], vol_count := 2 \<rparr>) = Inr vol_example3"
    by (simp add: vol_rank_def vol_example2_def vol_example3_def gh bind_res_def Let_def)
  have c: "0 < current_vol (vol_example2\<lparr> v_returns := [- ln 2, ln 2], ret_head := Suc 0,
         current_vol := ln 2 \<rparr>)"
    by simp
  show ?thesis
    unfolding vol_update_def
    using c by (simp add: py_log_def l r v h k bind_res_def)
qed

text \<open>
  The next update, with the closes 2 and then 1, pushes the second history value
  \<open>ln 2\<close>; the percentile is then the share of the two buffered values below it.
\<close>

theorem vol_update_percentile_example:
  "vol_update vol_example2 1 2 = Inr vol_example3 \<and>
   vol_history vol_example3 = [ln 2 / 2, ln 2, 0, 0, 0] \<and>
   vol_count vol_example3 = 2 \<and>
   percentile vol_example3 =
     real (length (filter (\<lambda>h. h < ln 2) [ln 2 / 2, ln 2 :: real])) / 2"
proof -
  have c: "0 < current_vol vol_example3" by (simp add: vol_example3_def)
  have t: "take 2 [ln (2::real) / 2, ln 2, 0, 0, 0] = [ln 2 / 2, ln 2]"
    by (simp add: eval_nat_numeral)
  from vol_update_percentile[OF _ _ vol_second_push c] t
  have "percentile vol_example3 =
     real (length (filter (\<lambda>h. h < ln 2) [ln 2 / 2, ln 2 :: real])) / 2"
    by (simp add: vol_example3_def vol_example2_def)
  with vol_second_push show ?thesis by (simp add: vol_example3_def)
qed

subsection \<open>The daily drawdown gate\<close>

text \<open>
  The main loop calls \<^verbatim>\<open>can_open_trade\<close> only with a positive size that
  \<^verbatim>\<open>calc_lots\<close> has returned, and \<^verbatim>\<open>calc_lots\<close> returns a positive size only for a
  nonzero leverage: with leverage 0 its own margin computation raises.
\<close>

lemma calc_lots_positive_leverage:
  assumes "calc_lots rm stop_points regime eq ps entry_price = Inr l" and "0 < l"
  shows "leverage (rm_ea rm) \<noteq> 0"
proof
  assume z: "leverage (rm_ea rm) = 0"
  have m: "\<And>a b. calc_margin rm a b = Inl ZeroDivisionError"
    using z by (simp add: calc_margin_def py_div_def)
  have "calc_lots rm stop_points regime eq ps entry_price = Inr 0 \<or>
        (\<exists>e. calc_lots rm stop_points regime eq ps entry_price = Inl e)"
    by (cases "get_free_margin rm eq ps")
       (auto simp: calc_lots_def Let_def bind_res_def m)
  with assms show False by auto
qed

text \<open>
  Claim C10. With a day start equity that is not positive the drawdown gate is skipped:
  it rejects nothing and performs no division. \<^verbatim>\<open>can_open_trade\<close> then returns a
  truth value, never an exception, and that value is the conjunction of the three other
  gates: fewer open positions than the limit, a spread within the limit, and a free
  margin that covers the required margin of the new trade. The margin gate divides by
  the leverage, which is nonzero on every call that the main loop makes
  (\<open>calc_lots_positive_leverage\<close>).
\<close>

theorem can_open_trade_without_day_start:
  assumes dse: "day_start_equity rm \<le> 0"
    and lev: "leverage (rm_ea rm) \<noteq> 0"
  shows "drawdown_rejects rm eq = Inr False \<and>
         can_open_trade rm ps eq spread new_lots new_price =
           Inr (int (length ps) < max_positions (rm_ea rm) \<and>
                spread \<le> max_spread_points (rm_ea rm) \<and>
                requiredMargin (rm_ea rm) (rm_inst rm) new_lots new_price \<le>
                  freeMargin (rm_ea rm) (rm_inst rm) eq ps)"
proof -
  have d: "drawdown_rejects rm eq = Inr False"
    using dse by (simp add: drawdown_rejects_def)
  show ?thesis
    using lev by (auto simp: can_open_trade_def d bind_res_def calc_margin_eq get_free_margin_eq)
qed

theorem can_open_trade_without_day_start_example:
  "can_open_trade ((RiskManager_new default_ea EURUSD)\<lparr> day_start_equity := 0 \<rparr>)
     [] 1000 15 0.1 1.1 = Inr True \<and>
   can_open_trade ((RiskManager_new default_ea EURUSD)\<lparr> day_start_equity := - 50 \<rparr>)
     [] (- 100) 15 0.1 1.1 = Inr False"
proof -
  have a: "day_start_equity ((RiskManager_new default_ea EURUSD)\<lparr> day_start_equity := 0 \<rparr>) \<le> 0"
    and b: "day_start_equity ((RiskManager_new default_ea EURUSD)\<lparr> day_start_equity := - 50 \<rparr>) \<le> 0"
    by simp_all
  have la: "leverage (rm_ea ((RiskManager_new default_ea EURUSD)\<lparr> day_start_equity := 0 \<rparr>)) \<noteq> 0"
    and lb: "leverage (rm_ea ((RiskManager_new default_ea EURUSD)\<lparr> day_start_equity := - 50 \<rparr>)) \<noteq> 0"
    by (simp_all add: RiskManager_new_def default_ea_def)
  show ?thesis
    using can_open_trade_without_day_start[OF a la, of 1000 "[]" 15 "0.1" "1.1"]
      can_open_trade_without_day_start[OF b lb, of "- 100" "[]" 15 "0.1" "1.1"]
    by (simp add: RiskManager_new_def default_ea_def EURUSD_def requiredMargin_def
        freeMargin_def usedMargin_def)
qed

subsection \<open>The range of the trend strength exponent\<close>

lemma regression_range: "0 \<le> regression log_n log_rs \<and> regression log_n log_rs \<le> 1"
  by (simp add: regression_def Let_def split: prod.splits)

lemma regression_few_points: "length log_n < 2 \<Longrightarrow> regression log_n log_rs = 0.5"
  by (simp add: regression_def)

lemma regression_degenerate:
  assumes "foldl reg_step (0, 0, 0, 0) (zip log_n log_rs) = (sum_x, sum_y, sum_xy, sum_x2)"
    and "\<bar>real (length log_n) * sum_x2 - sum_x * sum_x\<bar> < 1 / 10 ^ 15"
  shows "regression log_n log_rs = 0.5"
  using assms by (simp add: regression_def Let_def)

lemma calculate_hurst_range:
  assumes "calculate_hurst h = Inr v"
  shows "0 \<le> v \<and> v \<le> 1"
proof -
  from assms obtain lin where lin: "linearize h = Inr lin"
    by (cases "linearize h") (simp_all add: calculate_hurst_def)
  show ?thesis
  proof (cases "length lin < 20")
    case True
    with assms lin show ?thesis by (simp add: calculate_hurst_def)
  next
    case False
    with assms lin obtain log_n log_rs where "v = regression log_n log_rs"
      by (cases "hurst_loop lin 0 8 [] []") (auto simp: calculate_hurst_def)
    then show ?thesis using regression_range by simp
  qed
qed

lemma calculate_hurst_few_samples:
  "linearize h = Inr lin \<Longrightarrow> length lin < 20 \<Longrightarrow> calculate_hurst h = Inr 0.5"
  by (simp add: calculate_hurst_def)

lemma hurst_push_keeps: "hurst_push h r = Inr h' \<Longrightarrow> h_hurst h' = h_hurst h"
  by (auto simp: hurst_push_def bind_res_def set_item_def split: if_splits)

lemma hurst_update_range:
  assumes "hurst_update h close prev_close = Inr h'"
    and "0 \<le> h_hurst h \<and> h_hurst h \<le> 1"
  shows "0 \<le> h_hurst h' \<and> h_hurst h' \<le> 1"
proof (cases "prev_close \<le> 0 \<or> close \<le> 0")
  case True
  with assms show ?thesis by (simp add: hurst_update_def)
next
  case False
  then have q: "\<not> close / prev_close \<le> 0" by (simp add: not_le)
  from assms(1) False q obtain h1 where h1: "hurst_push h (ln (close / prev_close)) = Inr h1"
    by (cases "hurst_push h (ln (close / prev_close))")
       (simp_all add: hurst_update_def py_log_def bind_res_def)
  show ?thesis
  proof (cases "h_count h1 \<ge> 20")
    case True
    with assms(1) False q h1 obtain v where v: "calculate_hurst h1 = Inr v" and "h' = h1\<lparr> h_hurst := v \<rparr>"
      by (cases "calculate_hurst h1") (auto simp: hurst_update_def py_log_def bind_res_def)
    with calculate_hurst_range[OF v] show ?thesis by simp
  next
    case c: False
    with assms(1) False q h1 have "h' = h1"
      by (simp add: hurst_update_def py_log_def bind_res_def)
    with hurst_push_keeps[OF h1] assms(2) show ?thesis by simp
  qed
qed

lemma hurst_calls_range:
  "hurst_calls cs h = Inr h' \<Longrightarrow> 0 \<le> h_hurst h \<and> h_hurst h \<le> 1 \<Longrightarrow>
   0 \<le> h_hurst h' \<and> h_hurst h' \<le> 1"
proof (induction cs h rule: hurst_calls.induct)
  case (1 h)
  then show ?case by simp
next
  case (2 period cs h)
  then show ?case by (simp add: hurst_init_def)
next
  case (3 close prev_close cs h)
  from "3.prems"(1) obtain h1 where h1: "hurst_update h close prev_close = Inr h1"
    and rest: "hurst_calls cs h1 = Inr h'"
    by (cases "hurst_update h close prev_close") simp_all
  from hurst_update_range[OF h1 "3.prems"(2)] "3.IH"[OF h1 rest] show ?case by simp
qed

lemma calc_rs_in_range:
  "start + n \<le> length lin \<Longrightarrow> \<exists>rs. calc_rs lin start n = Inr rs"
  by (simp add: calc_rs_def Let_def split: prod.splits)

lemma seg_fold_total:
  assumes "\<forall>seg \<in> set segs. seg * n + n \<le> length lin"
    and "0 \<le> s \<and> (0 < k \<longrightarrow> 0 < s)"
  shows "\<exists>s' k'. foldl (seg_body lin n) (Inr (s, k)) segs = Inr (s', k') \<and>
           0 \<le> s' \<and> (0 < k' \<longrightarrow> 0 < s')"
  using assms
proof (induction segs arbitrary: s k)
  case Nil
  then show ?case by simp
next
  case (Cons seg segs)
  from Cons.prems(1) obtain rs where rs: "calc_rs lin (seg * n) n = Inr rs"
    using calc_rs_in_range[of "seg * n" n lin] by auto
  show ?case
  proof (cases "rs > 0")
    case True
    then have b: "seg_body lin n (Inr (s, k)) seg = Inr (s + rs, k + 1)"
      by (simp add: seg_body_def rs)
    have "0 \<le> s + rs \<and> (0 < k + 1 \<longrightarrow> 0 < s + rs)" using True Cons.prems(2) by auto
    from Cons.IH[OF _ this] Cons.prems(1) show ?thesis by (simp add: b)
  next
    case False
    then have b: "seg_body lin n (Inr (s, k)) seg = Inr (s, k)"
      by (simp add: seg_body_def rs)
    from Cons.IH[OF _ Cons.prems(2)] Cons.prems(1) show ?thesis by (simp add: b)
  qed
qed

lemma segments_in_range:
  assumes "0 < n"
  shows "\<forall>seg \<in> set [0..<length lin div n]. seg * n + n \<le> length lin"
proof
  fix seg assume "seg \<in> set [0..<length lin div n]"
  then have "Suc seg \<le> length lin div n" by simp
  then have "Suc seg * n \<le> (length lin div n) * n" by (rule mult_le_mono1)
  also have "\<dots> \<le> length lin" by simp
  finally show "seg * n + n \<le> length lin" by (simp add: add.commute)
qed

lemma hurst_loop_total:
  "0 < n \<Longrightarrow> \<exists>r. hurst_loop lin prev_n n log_n log_rs = Inr r"
proof (induction lin prev_n n log_n log_rs rule: hurst_loop.induct)
  case (1 lin prev_n n log_n log_rs)
  have up: "0 < nat \<lfloor>real n * 1.5\<rfloor>"
  proof -
    have "real n \<le> real n * 1.5" by simp
    then have "int n \<le> \<lfloor>real n * 1.5\<rfloor>" by linarith
    with \<open>0 < n\<close> show ?thesis by linarith
  qed
  show ?case
  proof (cases "n \<le> length lin div 2")
    case False
    then show ?thesis by (subst hurst_loop.simps) simp
  next
    case le: True
    show ?thesis
    proof (cases "n = prev_n")
      case True
      with "1.IH"(1)[OF le True] le show ?thesis
        by (subst hurst_loop.simps) simp
    next
      case ne: False
      show ?thesis
      proof (cases "length lin div n < 1")
        case True
        with le ne \<open>0 < n\<close> show ?thesis by (subst hurst_loop.simps) simp
      next
        case segs: False
        from seg_fold_total[OF segments_in_range[OF \<open>0 < n\<close>], of 0 0 lin]
        obtain s' k' where f: "foldl (seg_body lin n) (Inr (0, 0)) [0..<length lin div n] = Inr (s', k')"
          and inv: "0 \<le> s' \<and> (0 < k' \<longrightarrow> 0 < s')"
          by auto
        have n0: "n \<noteq> 0" using \<open>0 < n\<close> by simp
        show ?thesis
        proof (cases "k' > 0")
          case True
          with inv have "0 < s' / real k'" by simp
          then have l: "py_log (s' / real k') = Inr (ln (s' / real k'))"
            by (simp add: py_log_def)
          from "1.IH"(2)[OF le ne n0 segs f refl True l up]
          show ?thesis
            using le ne n0 segs f True l by (subst hurst_loop.simps) simp
        next
          case False
          from "1.IH"(3)[OF le ne n0 segs f refl False up]
          show ?thesis
            using le ne n0 segs f False by (subst hurst_loop.simps) simp
        qed
      qed
    qed
  qed
qed

lemma hurst_push_wf:
  assumes "hurst_wf h"
  shows "\<exists>h1. hurst_push h r = Inr h1 \<and> hurst_wf h1"
  using assms
  by (auto simp: hurst_wf_def hurst_push_def set_item_def bind_res_def)

lemma linearize_wf:
  assumes "hurst_wf h"
  shows "\<exists>lin. linearize h = Inr lin"
proof (cases "h_count h < h_period h")
  case True
  then show ?thesis by (simp add: linearize_def Let_def)
next
  case False
  have "list_all (\<lambda>i. i < length (h_returns h))
          (map (\<lambda>i. (h_head h + i) mod h_period h) [0..<min (h_count h) (h_period h)])"
    using assms by (simp add: list_all_iff hurst_wf_def)
  with False show ?thesis by (simp add: linearize_def Let_def get_items_def)
qed

lemma calculate_hurst_wf:
  assumes "hurst_wf h"
  shows "\<exists>v. calculate_hurst h = Inr v"
proof -
  from linearize_wf[OF assms] obtain lin where lin: "linearize h = Inr lin" by blast
  from hurst_loop_total[of 8 lin 0 "[]" "[]"] obtain r where
    r: "hurst_loop lin 0 8 [] [] = Inr r" by auto
  show ?thesis
  proof (cases "length lin < 20")
    case True
    then have "calculate_hurst h = Inr 0.5" by (simp add: calculate_hurst_def lin)
    then show ?thesis by blast
  next
    case False
    then have "calculate_hurst h = Inr (regression (fst r) (snd r))"
      by (cases r) (simp add: calculate_hurst_def lin r)
    then show ?thesis by blast
  qed
qed

lemma hurst_update_wf:
  assumes "hurst_wf h"
  shows "\<exists>h'. hurst_update h close prev_close = Inr h' \<and> hurst_wf h'"
proof (cases "prev_close \<le> 0 \<or> close \<le> 0")
  case True
  with assms show ?thesis by (simp add: hurst_update_def)
next
  case False
  then have q: "\<not> close / prev_close \<le> 0" by (simp add: not_le)
  from hurst_push_wf[OF assms] obtain h1 where
    h1: "hurst_push h (ln (close / prev_close)) = Inr h1" and wf1: "hurst_wf h1" by blast
  from calculate_hurst_wf[OF wf1] obtain v where v: "calculate_hurst h1 = Inr v" by blast
  have "hurst_wf (h1\<lparr> h_hurst := v \<rparr>)" using wf1 by (simp add: hurst_wf_def)
  with False q h1 v wf1 show ?thesis
    by (simp add: hurst_update_def py_log_def bind_res_def)
qed

lemma hurst_calls_total:
  "hurst_wf h \<Longrightarrow> positive_periods cs \<Longrightarrow> \<exists>h'. hurst_calls cs h = Inr h' \<and> hurst_wf h'"
proof (induction cs h rule: hurst_calls.induct)
  case (1 h)
  then show ?case by simp
next
  case (2 period cs h)
  from "2.prems" have "hurst_wf (hurst_init h period)"
    by (simp add: hurst_wf_def hurst_init_def)
  with "2.IH" "2.prems" show ?case by simp
next
  case (3 close prev_close cs h)
  from hurst_update_wf[OF "3.prems"(1)] obtain h1 where
    h1: "hurst_update h close prev_close = Inr h1" and wf1: "hurst_wf h1" by blast
  from "3.IH"[OF h1 wf1] "3.prems"(2) h1 show ?case by simp
qed

lemma hurst_calls_after_init:
  assumes "0 < period" and "positive_periods cs"
  shows "\<exists>h'. hurst_calls (Init period # cs) h = Inr h' \<and>
              0 \<le> get_hurst h' \<and> get_hurst h' \<le> 1"
proof -
  have wf: "hurst_wf (hurst_init h period)"
    using assms(1) by (simp add: hurst_wf_def hurst_init_def)
  from hurst_calls_total[OF wf assms(2)] obtain h' where
    h': "hurst_calls cs (hurst_init h period) = Inr h'" by blast
  have "0 \<le> h_hurst (hurst_init h period) \<and> h_hurst (hurst_init h period) \<le> 1"
    by (simp add: hurst_init_def)
  from hurst_calls_range[OF h' this] h' show ?thesis by (simp add: get_hurst_def)
qed

text \<open>
  Claim C8. The exposed exponent is always in the closed interval from 0 to 1. It is
  0.5 on a new estimator and after every \<^verbatim>\<open>init\<close>; whatever \<^verbatim>\<open>_calculate_hurst\<close>
  returns is in the interval, since the slope of the regression is clamped; its early
  exits (fewer than 20 samples, fewer than 2 regression points, a degenerate
  denominator) return 0.5; and so the value is in the interval after every sequence of
  \<^verbatim>\<open>init\<close> and \<^verbatim>\<open>update\<close> calls on a new estimator. Such a sequence returns
  whenever it starts with an \<^verbatim>\<open>init\<close> and its periods are positive.
\<close>

theorem hurst_value_in_unit_interval:
  "get_hurst HurstExponent_new = 0.5 \<and>
   get_hurst (hurst_init h0 period) = 0.5 \<and>
   (calculate_hurst h = Inr v \<longrightarrow> 0 \<le> v \<and> v \<le> 1) \<and>
   (linearize h = Inr lin \<and> length lin < 20 \<longrightarrow> calculate_hurst h = Inr 0.5) \<and>
   (length log_n < 2 \<longrightarrow> regression log_n log_rs = 0.5) \<and>
   (foldl reg_step (0, 0, 0, 0) (zip log_n log_rs) = (sum_x, sum_y, sum_xy, sum_x2) \<and>
    \<bar>real (length log_n) * sum_x2 - sum_x * sum_x\<bar> < 1 / 10 ^ 15 \<longrightarrow>
      regression log_n log_rs = 0.5) \<and>
   (hurst_calls cs HurstExponent_new = Inr h' \<longrightarrow> 0 \<le> get_hurst h' \<and> get_hurst h' \<le> 1) \<and>
   (0 < p \<and> positive_periods cs' \<longrightarrow>
      (\<exists>h''. hurst_calls (Init p # cs') HurstExponent_new = Inr h'' \<and>
             0 \<le> get_hurst h'' \<and> get_hurst h'' \<le> 1))"
proof -
  have new: "0 \<le> h_hurst HurstExponent_new \<and> h_hurst HurstExponent_new \<le> 1"
    by (simp add: HurstExponent_new_def)
  have "hurst_calls cs HurstExponent_new = Inr h' \<longrightarrow> 0 \<le> get_hurst h' \<and> get_hurst h' \<le> 1"
    using hurst_calls_range[OF _ new] by (auto simp: get_hurst_def)
  moreover have "calculate_hurst h = Inr v \<longrightarrow> 0 \<le> v \<and> v \<le> 1"
    using calculate_hurst_range by blast
  moreover have "linearize h = Inr lin \<and> length lin < 20 \<longrightarrow> calculate_hurst h = Inr 0.5"
    using calculate_hurst_few_samples by blast
  moreover have "foldl reg_step (0, 0, 0, 0) (zip log_n log_rs) = (sum_x, sum_y, sum_xy, sum_x2) \<and>
      \<bar>real (length log_n) * sum_x2 - sum_x * sum_x\<bar> < 1 / 10 ^ 15 \<longrightarrow>
      regression log_n log_rs = 0.5"
    using regression_degenerate by blast
  moreover have "0 < p \<and> positive_periods cs' \<longrightarrow>
      (\<exists>h''. hurst_calls (Init p # cs') HurstExponent_new = Inr h'' \<and>
             0 \<le> get_hurst h'' \<and> get_hurst h'' \<le> 1)"
    using hurst_calls_after_init by blast
  ultimately show ?thesis
    by (simp add: get_hurst_def HurstExponent_new_def hurst_init_def regression_few_points)
qed

text \<open>
  A sequence of calls that returns: two updates after \<^verbatim>\<open>init(3)\<close>, one with a price
  that is not positive, a second \<^verbatim>\<open>init\<close> and one more update.
\<close>

theorem hurst_value_in_unit_interval_example:
  "\<exists>h'. hurst_calls [Init 3, Update 2 1, Update 0 2, Update 1 2, Init 2, Update 3 3]
          HurstExponent_new = Inr h' \<and>
        h_returns h' = [0, 0] \<and> 0 \<le> get_hurst h' \<and> get_hurst h' \<le> 1"
proof -
  have q: "\<not> (2::real) \<le> 0" "\<not> (1 / 2 :: real) \<le> 0" by simp_all
  have "\<exists>h'. hurst_calls [Init 3, Update 2 1, Update 0 2, Update 1 2, Init 2, Update 3 3]
          HurstExponent_new = Inr h' \<and> h_returns h' = [0, 0]"
    by (simp add: hurst_update_def hurst_push_def hurst_init_def HurstExponent_new_def
        py_log_def set_item_def bind_res_def eval_nat_numeral)
  then obtain h' where
    h': "hurst_calls [Init 3, Update 2 1, Update 0 2, Update 1 2, Init 2, Update 3 3]
          HurstExponent_new = Inr h'" and r: "h_returns h' = [0, 0]"
    by blast
  from hurst_value_in_unit_interval
    [where cs = "[Init 3, Update 2 1, Update 0 2, Update 1 2, Init 2, Update 3 3]"
       and h' = h'] h'
  have "0 \<le> get_hurst h' \<and> get_hurst h' \<le> 1" by blast
  with h' r show ?thesis by blast
qed

subsection \<open>The steps of a bar and the open positions\<close>

lemma stop_loss_check_result:
  "stop_loss_check inst d i lo hi s =
     Inr (s\<lparr> realized_pnl :=
               realized_pnl s + sum_list (map (sl_profit inst) (filter (sl_touched lo hi) (positions s))),
             closed_trades :=
               closed_trades s @ map (sl_trade inst d i) (filter (sl_touched lo hi) (positions s)),
             positions := filter (\<lambda>p. \<not> sl_touched lo hi p) (positions s),
             bars_since_close :=
               (if filter (sl_touched lo hi) (positions s) = [] then bars_since_close s else 0) \<rparr>)"
proof -
  have idx: "sort (map fst (filter (\<lambda>ip. sl_touched lo hi (snd ip)) (enumerate 0 (positions s)))) =
      map fst (filter (\<lambda>ip. sl_touched lo hi (snd ip)) (enumerate 0 (positions s)))"
    by (rule sl_indices_sorted)
  show ?thesis
    unfolding stop_loss_check_def sl_fold
    by (simp add: idx pop_touched bind_res_def)
qed

lemma exit_buy_fold:
  assumes "\<forall>y \<in> set pre. \<not> P y"
  shows "\<exists>r' c'. foldl (exit_buy_body inst d i bid) (Inr (r, c, pre @ ps)) (filter P ps) =
           Inr (r', c', pre @ filter (\<lambda>p. \<not> P p) ps)"
  using assms
proof (induction ps arbitrary: pre r c)
  case Nil
  show ?case by simp
next
  case (Cons x ps)
  show ?case
  proof (cases "P x")
    case True
    with Cons.prems have "x \<notin> set pre" by blast
    then have rm: "py_remove x (pre @ x # ps) = Inr (pre @ ps)"
      by (simp add: py_remove_def remove1_append)
    from Cons.IH[OF Cons.prems] True show ?thesis
      by (simp add: exit_buy_body_def bind_res_def rm Let_def)
  next
    case False
    with Cons.prems have "\<forall>y \<in> set (pre @ [x]). \<not> P y" by simp
    from Cons.IH[OF this] False show ?thesis by simp
  qed
qed

lemma exit_sell_fold:
  assumes "\<forall>y \<in> set pre. \<not> P y"
  shows "\<exists>r' c'. foldl (exit_sell_body inst d i ask) (Inr (r, c, pre @ ps)) (filter P ps) =
           Inr (r', c', pre @ filter (\<lambda>p. \<not> P p) ps)"
  using assms
proof (induction ps arbitrary: pre r c)
  case Nil
  show ?case by simp
next
  case (Cons x ps)
  show ?case
  proof (cases "P x")
    case True
    with Cons.prems have "x \<notin> set pre" by blast
    then have rm: "py_remove x (pre @ x # ps) = Inr (pre @ ps)"
      by (simp add: py_remove_def remove1_append)
    from Cons.IH[OF Cons.prems] True show ?thesis
      by (simp add: exit_sell_body_def bind_res_def rm Let_def)
  next
    case False
    with Cons.prems have "\<forall>y \<in> set (pre @ [x]). \<not> P y" by simp
    from Cons.IH[OF this] False show ?thesis by simp
  qed
qed

lemma signal_exit_buy_result:
  "\<exists>r c b Q. signal_exit_buy ea inst d i bar_close s =
     Inr (s\<lparr> realized_pnl := r, closed_trades := c, positions := filter Q (positions s),
             bars_since_close := b \<rparr>)"
proof (cases "list_ex (\<lambda>p. ptype p = PT_BUY) (positions s) \<and> should_close_buy (signal_engine s)")
  case True
  from exit_buy_fold[of "[]" "\<lambda>p. ptype p = PT_BUY \<and> held_long_enough ea i p" inst d i
      "bar_close - half_spread inst" "realized_pnl s" "closed_trades s" "positions s"]
  obtain r' c' where "foldl (exit_buy_body inst d i (bar_close - half_spread inst))
      (Inr (realized_pnl s, closed_trades s, positions s))
      (filter (\<lambda>p. ptype p = PT_BUY \<and> held_long_enough ea i p) (positions s)) =
      Inr (r', c', filter (\<lambda>p. \<not> (ptype p = PT_BUY \<and> held_long_enough ea i p)) (positions s))"
    by auto
  with True have "signal_exit_buy ea inst d i bar_close s =
     Inr (s\<lparr> realized_pnl := r', closed_trades := c',
             positions := filter (\<lambda>p. \<not> (ptype p = PT_BUY \<and> held_long_enough ea i p)) (positions s),
             bars_since_close := 0 \<rparr>)"
    by (simp add: signal_exit_buy_def Let_def bind_res_def)
  then show ?thesis by blast
next
  case False
  have "signal_exit_buy ea inst d i bar_close s = Inr s"
    by (simp only: signal_exit_buy_def if_not_P[OF False])
  then have "signal_exit_buy ea inst d i bar_close s =
     Inr (s\<lparr> realized_pnl := realized_pnl s, closed_trades := closed_trades s,
             positions := filter (\<lambda>p. True) (positions s),
             bars_since_close := bars_since_close s \<rparr>)"
    by simp
  then show ?thesis by blast
qed

lemma signal_exit_sell_result:
  "\<exists>r c b Q. signal_exit_sell ea inst d i bar_close s =
     Inr (s\<lparr> realized_pnl := r, closed_trades := c, positions := filter Q (positions s),
             bars_since_close := b \<rparr>)"
proof (cases "list_ex (\<lambda>p. ptype p = PT_SELL) (positions s) \<and> should_close_sell (signal_engine s)")
  case True
  from exit_sell_fold[of "[]" "\<lambda>p. ptype p = PT_SELL \<and> held_long_enough ea i p" inst d i
      "bar_close + half_spread inst" "realized_pnl s" "closed_trades s" "positions s"]
  obtain r' c' where "foldl (exit_sell_body inst d i (bar_close + half_spread inst))
      (Inr (realized_pnl s, closed_trades s, positions s))
      (filter (\<lambda>p. ptype p = PT_SELL \<and> held_long_enough ea i p) (positions s)) =
      Inr (r', c', filter (\<lambda>p. \<not> (ptype p = PT_SELL \<and> held_long_enough ea i p)) (positions s))"
    by auto
  with True have "signal_exit_sell ea inst d i bar_close s =
     Inr (s\<lparr> realized_pnl := r', closed_trades := c',
             positions := filter (\<lambda>p. \<not> (ptype p = PT_SELL \<and> held_long_enough ea i p)) (positions s),
             bars_since_close := 0 \<rparr>)"
    by (simp add: signal_exit_sell_def Let_def bind_res_def)
  then show ?thesis by blast
next
  case False
  have "signal_exit_sell ea inst d i bar_close s = Inr s"
    by (simp only: signal_exit_sell_def if_not_P[OF False])
  then have "signal_exit_sell ea inst d i bar_close s =
     Inr (s\<lparr> realized_pnl := realized_pnl s, closed_trades := closed_trades s,
             positions := filter (\<lambda>p. True) (positions s),
             bars_since_close := bars_since_close s \<rparr>)"
    by simp
  then show ?thesis by blast
qed

lemma get_entry_signal_cases:
  "get_entry_signal se price = NONE \<or> get_entry_signal se price = BUY \<or>
   get_entry_signal se price = SELL"
  by (simp add: get_entry_signal_def Let_def)

lemma gated_signal_cases:
  "gated_signal ea bar_close s = NONE \<or>
   (gated_signal ea bar_close s = BUY \<and> \<not> list_ex (\<lambda>p. ptype p = PT_SELL) (positions s)) \<or>
   (gated_signal ea bar_close s = SELL \<and> \<not> list_ex (\<lambda>p. ptype p = PT_BUY) (positions s))"
  using get_entry_signal_cases[of "signal_engine s" bar_close]
  by (auto simp: gated_signal_def Let_def)

lemma entry_step_result:
  assumes "entry_step ea inst d i bar_close s = Inr (s', sig, entered)"
  shows "sig = gated_signal ea bar_close s \<and>
         ((\<not> entered \<and> s' = s) \<or>
          (entered \<and> sig \<noteq> NONE \<and>
           (\<exists>pos. s' = s\<lparr> positions := positions s @ [pos], next_ticket := next_ticket s + 1 \<rparr> \<and>
                  ptype pos = (if sig = BUY then PT_BUY else PT_SELL) \<and>
                  ticket pos = next_ticket s \<and> entry_bar_index pos = i)))"
  using assms
  by (auto simp: entry_step_def Let_def bind_res_def split: if_splits sum.splits)

lemma one_sided_filter: "one_sided ps \<Longrightarrow> one_sided (filter Q ps)"
  by (auto simp: one_sided_def list_all_iff)

lemma one_sided_map:
  "(\<And>p. ptype (f p) = ptype p) \<Longrightarrow> one_sided ps \<Longrightarrow> one_sided (map f ps)"
  by (auto simp: one_sided_def list_all_iff)

lemma trail_position_ptype: "ptype (trail_position ea i tb ts p) = ptype p"
  by (simp add: trail_position_def)

lemma trailing_stop_one_sided:
  "one_sided (positions s) \<Longrightarrow> one_sided (positions (trailing_stop ea i entered s))"
  by (simp add: trailing_stop_def Let_def one_sided_map trail_position_ptype)

lemma entry_step_one_sided:
  assumes "entry_step ea inst d i bar_close s = Inr (s', sig, entered)"
    and "one_sided (positions s)"
  shows "one_sided (positions s')"
proof -
  note r = entry_step_result[OF assms(1)]
  show ?thesis
  proof (cases entered)
    case False
    with r assms(2) show ?thesis by auto
  next
    case True
    with r obtain pos where s': "positions s' = positions s @ [pos]"
      and pt: "ptype pos = (if sig = BUY then PT_BUY else PT_SELL)"
      and sg: "sig = gated_signal ea bar_close s" "sig \<noteq> NONE"
      by auto
    from gated_signal_cases[of ea bar_close s] sg
    consider "sig = BUY" "\<not> list_ex (\<lambda>p. ptype p = PT_SELL) (positions s)"
      | "sig = SELL" "\<not> list_ex (\<lambda>p. ptype p = PT_BUY) (positions s)"
      by auto
    then show ?thesis
    proof cases
      case 1
      then have "list_all (\<lambda>p. ptype p = PT_BUY) (positions s)"
        by (auto simp: list_all_iff list_ex_iff intro: PositionType.exhaust)
      with 1 pt s' show ?thesis by (simp add: one_sided_def)
    next
      case 2
      then have "list_all (\<lambda>p. ptype p = PT_SELL) (positions s)"
        by (auto simp: list_all_iff list_ex_iff intro: PositionType.exhaust)
      with 2 pt s' show ?thesis by (simp add: one_sided_def)
    qed
  qed
qed

lemma bar_step_one_sided:
  assumes step: "bar_step ea inst data i s = Inr s'"
    and inv: "one_sided (positions s)"
  shows "one_sided (positions s')"
proof -
  define d where "d = b_time (data ! i)"
  define bc where "bc = b_close (data ! i)"
  define s1 where "s1 = new_day_step d (s\<lparr> bars_since_close := bars_since_close s + 1 \<rparr>)"
  have p1: "positions s1 = positions s"
    by (simp add: s1_def new_day_step_def Let_def)
  from step have len: "i < length data"
    by (simp add: bar_step_def split: if_splits)
  from step len obtain se where
    se: "on_new_bar (signal_engine s1) bc
           (b_close (data ! (if i = 0 then length data - 1 else i - 1))) = Inr se"
    unfolding bar_step_def Let_def s1_def d_def bc_def
    by (auto simp: bind_res_def split: sum.splits)
  define s2 where "s2 = s1\<lparr> signal_engine := se \<rparr>"
  obtain s3 where s3: "stop_loss_check inst d i (b_low (data ! i)) (b_high (data ! i)) s2 = Inr s3"
    and p3: "positions s3 = filter (\<lambda>p. \<not> sl_touched (b_low (data ! i)) (b_high (data ! i)) p) (positions s2)"
    using stop_loss_check_result[of inst d i "b_low (data ! i)" "b_high (data ! i)" s2] by simp
  obtain s4 Q4 where s4: "signal_exit_buy ea inst d i bc s3 = Inr s4"
    and p4: "positions s4 = filter Q4 (positions s3)"
    using signal_exit_buy_result[of ea inst d i bc s3] by auto
  obtain s5 Q5 where s5: "signal_exit_sell ea inst d i bc s4 = Inr s5"
    and p5: "positions s5 = filter Q5 (positions s4)"
    using signal_exit_sell_result[of ea inst d i bc s4] by auto
  from step len se s3 s4 s5 obtain s6 sig entered where
    s6: "entry_step ea inst d i bc s5 = Inr (s6, sig, entered)"
    and fin: "s' = record_bar d sig entered (update_equity ea inst bc (trailing_stop ea i entered s6))"
    unfolding bar_step_def Let_def
    by (auto simp: bind_res_def s1_def[symmetric] d_def[symmetric] bc_def[symmetric]
        s2_def[symmetric] split: sum.splits prod.splits)
  have "one_sided (positions s5)"
    using inv by (simp add: p5 p4 p3 s2_def p1 one_sided_filter)
  from entry_step_one_sided[OF s6 this] have "one_sided (positions s6)" .
  then have "one_sided (positions (trailing_stop ea i entered s6))"
    by (rule trailing_stop_one_sided)
  then show ?thesis
    by (simp add: fin record_bar_def update_equity_def Let_def)
qed

lemma loop_body_Inl: "loop_body ea inst data (Inl e) j = Inl e"
  by (simp add: loop_body_def bind_res_def)

lemma loop_body_Inr: "loop_body ea inst data (Inr s) j = bar_step ea inst data j s"
  by (simp add: loop_body_def bind_res_def)

lemma loop_fold_Inl: "foldl (loop_body ea inst data) (Inl e) js = Inl e"
  by (induction js) (simp_all add: loop_body_Inl)

lemma loop_fold_one_sided:
  "foldl (loop_body ea inst data) (Inr s) js = Inr s' \<Longrightarrow> one_sided (positions s) \<Longrightarrow>
   one_sided (positions s')"
proof (induction js arbitrary: s)
  case Nil
  then show ?case by simp
next
  case (Cons j js)
  show ?case
  proof (cases "bar_step ea inst data j s")
    case (Inl e)
    with Cons.prems(1) show ?thesis
      by (simp add: loop_body_Inr loop_fold_Inl)
  next
    case (Inr s1)
    with Cons.prems(1) have "foldl (loop_body ea inst data) (Inr s1) js = Inr s'"
      by (simp add: loop_body_Inr)
    from Cons.IH[OF this bar_step_one_sided[OF Inr Cons.prems(2)]] show ?thesis .
  qed
qed

lemma state_after_one_sided:
  assumes "state_after ea inst data k = Inr s"
  shows "one_sided (positions s)"
proof -
  from assms obtain se where
    "foldl (loop_body ea inst data) (Inr (initial_state ea inst se))
       [warmup_bars ea (length data)..<warmup_bars ea (length data) + k] = Inr s"
    by (auto simp: state_after_def Let_def bind_res_def split: if_splits sum.splits)
  moreover have "one_sided (positions (initial_state ea inst se))"
    by (simp add: initial_state_def one_sided_def)
  ultimately show ?thesis by (rule loop_fold_one_sided)
qed

text \<open>
  With 20 to 23 samples the loop of \<^verbatim>\<open>_calculate_hurst\<close> runs for the window 8 only
  (the next window, 12, is above half the length), so at most one regression point
  exists and the result is 0.5.
\<close>

lemma hurst_loop_short:
  assumes "20 \<le> length lin" and "length lin < 24"
  shows "\<exists>log_n log_rs. hurst_loop lin 0 8 [] [] = Inr (log_n, log_rs) \<and> length log_n < 2"
proof -
  have d2: "8 \<le> length lin div 2" "\<not> 12 \<le> length lin div 2" and d8: "\<not> length lin div 8 < 1"
    using assms by simp_all
  have t: "nat \<lfloor>real 8 * 1.5\<rfloor> = 12" by simp
  from seg_fold_total[OF segments_in_range[of 8 lin], of 0 0]
  obtain s' k' where f: "foldl (seg_body lin 8) (Inr (0, 0)) [0..<length lin div 8] = Inr (s', k')"
    and inv: "0 \<le> s' \<and> (0 < k' \<longrightarrow> 0 < s')"
    by auto
  have stop: "\<And>a b. hurst_loop lin 8 12 a b = Inr (a, b)"
    using d2 by (subst hurst_loop.simps) simp
  show ?thesis
  proof (cases "k' > 0")
    case True
    with inv have "0 < s' / real k'" by simp
    then have l: "py_log (s' / real k') = Inr (ln (s' / real k'))"
      by (simp add: py_log_def)
    have "hurst_loop lin 0 8 [] [] = Inr ([ln (real 8)], [ln (s' / real k')])"
      using d2 d8 True by (subst hurst_loop.simps) (simp add: f l t stop)
    then show ?thesis by simp
  next
    case False
    have "hurst_loop lin 0 8 [] [] = Inr ([], [])"
      using d2 d8 False by (subst hurst_loop.simps) (simp add: f t stop)
    then show ?thesis by simp
  qed
qed

lemma calculate_hurst_short:
  assumes "linearize h = Inr lin" and "20 \<le> length lin" and "length lin < 24"
  shows "calculate_hurst h = Inr 0.5"
proof -
  from hurst_loop_short[OF assms(2,3)] obtain log_n log_rs where
    "hurst_loop lin 0 8 [] [] = Inr (log_n, log_rs)" "length log_n < 2" by blast
  with assms show ?thesis
    by (simp add: calculate_hurst_def regression_few_points)
qed

lemma example_kalman_update:
  "kalman_update example_kalman 12 = Inr (example_kalman\<lparr> state0 := 11 \<rparr>)"
proof -
  have S: "innovation_cov example_kalman = 1"
    by (simp add: innovation_cov_def P_pred00_def example_kalman_def)
  have y: "innovation example_kalman 12 = 1"
    by (simp add: innovation_def x_pred0_def example_kalman_def)
  show ?thesis
    unfolding kalman_update_def Let_def S y
    by (simp add: example_kalman_def x_pred0_def x_pred1_def P_pred00_def P_pred01_def
        P_pred10_def P_pred11_def)
qed

lemma example_hurst_update:
  "\<exists>h'. hurst_update example_hurst 12 11 = Inr h' \<and> h_hurst h' = 0.5 \<and> h_count h' = 20"
proof -
  have q: "\<not> (12 / 11 :: real) \<le> 0" by simp
  define h1 where "h1 = example_hurst\<lparr> h_returns := (replicate 20 0)[0 := ln (12 / 11)],
      h_head := 1 \<rparr>"
  have p: "hurst_push example_hurst (ln (12 / 11)) = Inr h1"
    by (simp add: hurst_push_def example_hurst_def set_item_def bind_res_def h1_def)
  have wf: "hurst_wf h1" by (simp add: hurst_wf_def h1_def example_hurst_def)
  from linearize_wf[OF wf] obtain lin where lin: "linearize h1 = Inr lin" by blast
  have len: "length lin = 20"
    using lin by (auto simp: linearize_def h1_def example_hurst_def get_items_def Let_def
        split: if_splits)
  have c: "calculate_hurst h1 = Inr 0.5"
    using calculate_hurst_short[OF lin] len by simp
  have cnt: "h_count h1 = 20" by (simp add: h1_def example_hurst_def)
  have "hurst_update example_hurst 12 11 = Inr (h1\<lparr> h_hurst := 0.5 \<rparr>)"
    using q by (simp add: hurst_update_def py_log_def bind_res_def p c cnt)
  then show ?thesis by (simp add: h1_def example_hurst_def)
qed

lemma example_vol_update:
  "\<exists>v'. vol_update (vol_init VolatilityRegime_new 2 2) 12 11 = Inr v'"
  by (simp add: vol_update_def vol_init_def VolatilityRegime_new_def py_log_def bind_res_def
      vol_push_return_def set_item_def vol_realized_def eval_nat_numeral)

lemma example_on_new_bar:
  "\<exists>se'. on_new_bar example_engine 12 11 = Inr se' \<and>
     m_kalman se' = example_kalman\<lparr> state0 := 11 \<rparr> \<and>
     h_hurst (m_hurst se') = 0.5 \<and> h_count (m_hurst se') = 20 \<and>
     conf_band se' = 2 \<and> se_hurst_threshold se' = 0.4 \<and> se_hurst_exit_threshold se' = 0.4"
proof -
  from example_hurst_update obtain h' where
    h: "hurst_update example_hurst 12 11 = Inr h'" "h_hurst h' = 0.5" "h_count h' = 20" by blast
  from example_vol_update obtain v' where
    v: "vol_update (vol_init VolatilityRegime_new 2 2) 12 11 = Inr v'" by blast
  have "on_new_bar example_engine 12 11 =
      Inr (example_engine\<lparr> m_kalman := example_kalman\<lparr> state0 := 11 \<rparr>, m_hurst := h',
             m_vol_regime := v' \<rparr>)"
    by (simp add: on_new_bar_def example_engine_def example_kalman_update h v bind_res_def)
  with h show ?thesis by (simp add: example_engine_def)
qed

lemma example_bar_step:
  "\<exists>s'. bar_step example_ea EURUSD example_bars 1 example_state = Inr s' \<and>
     positions s' = [example_short\<lparr> stop_loss := 11 \<rparr>] \<and>
     get_entry_signal (signal_engine s') 12 = BUY \<and>
     signals (res s') = [NONE]"
proof -
  from example_on_new_bar obtain se' where
    se: "on_new_bar example_engine 12 11 = Inr se'"
    and k: "m_kalman se' = example_kalman\<lparr> state0 := 11 \<rparr>"
    and h: "h_hurst (m_hurst se') = 0.5" "h_count (m_hurst se') = 20"
    and c: "conf_band se' = 2" "se_hurst_threshold se' = 0.4" "se_hurst_exit_threshold se' = 0.4"
    by blast
  define d where "d = Timestamp 2 0"
  define s1 where "s1 = new_day_step d (example_state\<lparr> bars_since_close := 101 \<rparr>)"
  define s2 where "s2 = s1\<lparr> signal_engine := se' \<rparr>"
  have e1: "signal_engine s1 = example_engine" "positions s1 = [example_short]"
    by (simp_all add: s1_def new_day_step_def Let_def example_state_def)
  have p2: "positions s2 = [example_short]" "signal_engine s2 = se'"
    by (simp_all add: s2_def e1)
  have nt: "\<not> sl_touched 11.5 12.5 example_short"
    by (simp add: sl_touched_def example_short_def)
  have sl: "stop_loss_check EURUSD d 1 11.5 12.5 s2 = Inr s2"
    using nt by (simp add: stop_loss_check_result p2)
  have lvl: "get_level (m_kalman se') = 11" "get_slope (m_kalman se') = 1"
    "get_estimation_error (m_kalman se') = 0" "is_initialized (m_kalman se')"
    "state0 (m_kalman se') = 11"
    by (simp_all add: k get_level_def get_slope_def get_estimation_error_def is_initialized_def
        example_kalman_def)
  have xb: "signal_exit_buy example_ea EURUSD d 1 12 s2 = Inr s2"
    by (simp add: signal_exit_buy_def p2 example_short_def)
  have xs: "signal_exit_sell example_ea EURUSD d 1 12 s2 = Inr s2"
    by (simp add: signal_exit_sell_def p2 should_close_sell_def lvl get_hurst_def h c)
  have raw: "get_entry_signal se' 12 = BUY"
    by (simp add: get_entry_signal_def lvl hurst_is_ready_def h c get_hurst_def Let_def
        get_upper_band_def get_lower_band_def)
  have g: "gated_signal example_ea 12 s2 = NONE"
    by (simp add: gated_signal_def Let_def p2 raw example_short_def)
  have en: "entry_step example_ea EURUSD d 1 12 s2 = Inr (s2, NONE, False)"
    by (simp add: entry_step_def g)
  have tr: "positions (trailing_stop example_ea 1 False s2) = [example_short\<lparr> stop_loss := 11 \<rparr>]"
    by (simp add: trailing_stop_def p2 Let_def get_kalman_level_def se_estimation_error_def lvl
        trail_position_def example_short_def example_ea_def default_ea_def)
  have tse: "signal_engine (trailing_stop example_ea 1 False s2) = se'"
    by (simp add: trailing_stop_def p2 Let_def)
  have tres: "res (trailing_stop example_ea 1 False s2) = BacktestResult_new"
    by (simp add: trailing_stop_def Let_def s2_def s1_def new_day_step_def example_state_def)
  have step: "bar_step example_ea EURUSD example_bars 1 example_state =
      Inr (record_bar d NONE False
             (update_equity example_ea EURUSD 12 (trailing_stop example_ea 1 False s2)))"
    unfolding bar_step_def Let_def
    using se sl xb xs en e1(1) s2_def
    by (simp add: example_bars_def d_def[symmetric]
        s1_def[symmetric, unfolded example_state_def, simplified]
        example_state_def bind_res_def)
  show ?thesis
    unfolding step
    using tr tse raw tres
    by (simp add: record_bar_def update_equity_def Let_def BacktestResult_new_def)
qed

lemma small_warmup:
  "\<exists>se. foldl feed_body (Inr (init_engine small_ea)) (warmup_feed [1] 0) = Inr se \<and>
     initialized (m_kalman se) \<and> P00 (m_kalman se) = 1 / 10000 \<and> P01 (m_kalman se) = 0 \<and>
     P10 (m_kalman se) = 0 \<and> P11 (m_kalman se) = 1 / 1000000 \<and> Q00 (m_kalman se) = 1 / 100 \<and>
     R_obs (m_kalman se) = 1 \<and> state0 (m_kalman se) = 1 \<and> state1 (m_kalman se) = 0 \<and>
     m_hurst se = \<lparr> h_period = 2, h_returns = [0, 0], h_head = 0, h_count = 1, h_hurst = 0.5 \<rparr> \<and>
     m_vol_regime se = \<lparr> v_period = 2, v_hist_period = 2, v_returns = [0, 0], ret_head = 0,
       ret_count = 1, vol_history = [0, 0], vol_head = 0, vol_count = 0, current_vol = 0,
       percentile = 0.5 \<rparr>"
  by (simp add: small_ea_def default_ea_def
      warmup_feed_def feed_body_def bind_res_def on_new_bar_def init_engine_def se_init_def
      SignalEngine_new_def kalman_init_def KalmanFilter_new_def kalman_update_def
      hurst_init_def HurstExponent_new_def hurst_update_def hurst_push_def py_log_def
      set_item_def vol_init_def VolatilityRegime_new_def vol_update_def vol_push_return_def
      vol_realized_def Let_def eval_nat_numeral)

lemma small_on_new_bar:
  assumes "initialized k" "P00 k = 1 / 10000" "P01 k = 0" "P10 k = 0" "P11 k = 1 / 1000000"
    "Q00 k = 1 / 100" "R_obs k = 1" "state0 k = 1" "state1 k = 0"
  shows "\<exists>k'. kalman_update k 1 = Inr k'"
proof -
  have S: "innovation_cov k = 1010101 / 1000000"
    using assms by (simp add: innovation_cov_def P_pred00_def)
  have y: "innovation k 1 = 0"
    using assms by (simp add: innovation_def x_pred0_def)
  have g: "\<not> \<bar>0::real\<bar> > 3 * sqrt (1010101 / 1000000)" by simp
  show ?thesis
    unfolding kalman_update_def Let_def S y
    using assms(1) g by simp
qed

lemma small_run_state: "\<exists>s. state_after small_ea EURUSD one_bar 1 = Inr s"
proof -
  from small_warmup obtain se where
    w: "foldl feed_body (Inr (init_engine small_ea)) (warmup_feed [1] 0) = Inr se"
    and kf: "initialized (m_kalman se)" "P00 (m_kalman se) = 1 / 10000" "P01 (m_kalman se) = 0"
      "P10 (m_kalman se) = 0" "P11 (m_kalman se) = 1 / 1000000" "Q00 (m_kalman se) = 1 / 100"
      "R_obs (m_kalman se) = 1" "state0 (m_kalman se) = 1" "state1 (m_kalman se) = 0"
    and hv: "m_hurst se = \<lparr> h_period = 2, h_returns = [0, 0], h_head = 0, h_count = 1, h_hurst = 0.5 \<rparr>"
      "m_vol_regime se = \<lparr> v_period = 2, v_hist_period = 2, v_returns = [0, 0], ret_head = 0,
       ret_count = 1, vol_history = [0, 0], vol_head = 0, vol_count = 0, current_vol = 0,
       percentile = 0.5 \<rparr>"
    by blast
  from small_on_new_bar[OF kf] obtain k' where k': "kalman_update (m_kalman se) 1 = Inr k'" by blast
  have gi: "get_items [0, 0::real] [0..<2] = Inr [0, 0]"
    by (simp add: get_items_def eval_nat_numeral upt_rec)
  have h': "\<exists>h'. hurst_update (m_hurst se) 1 1 = Inr h' \<and> h_count h' = 2"
    by (simp add: hv hurst_update_def hurst_push_def py_log_def set_item_def bind_res_def)
  have v': "\<exists>v'. vol_update (m_vol_regime se) 1 1 = Inr v'"
    by (simp add: hv vol_update_def vol_push_return_def vol_realized_def py_log_def set_item_def
        bind_res_def get_items_def Let_def)
  from h' v' k' obtain se' where se': "on_new_bar se 1 1 = Inr se'"
    and hc: "h_count (m_hurst se') = 2"
    by (auto simp: on_new_bar_def bind_res_def)
  define s1 where "s1 = new_day_step (Timestamp 1 0)
      ((initial_state small_ea EURUSD se)\<lparr> bars_since_close := 101 \<rparr>)"
  have ps: "positions s1 = []" "signal_engine s1 = se"
    by (simp_all add: s1_def new_day_step_def Let_def initial_state_def)
  define s2 where "s2 = s1\<lparr> signal_engine := se' \<rparr>"
  have p2: "positions s2 = []" "signal_engine s2 = se'" by (simp_all add: s2_def ps)
  have sl: "stop_loss_check EURUSD (Timestamp 1 0) 0 1 1 s2 = Inr s2"
    by (simp add: stop_loss_check_result p2)
  have xb: "signal_exit_buy small_ea EURUSD (Timestamp 1 0) 0 1 s2 = Inr s2"
    and xs: "signal_exit_sell small_ea EURUSD (Timestamp 1 0) 0 1 s2 = Inr s2"
    by (simp_all add: signal_exit_buy_def signal_exit_sell_def p2)
  have g: "gated_signal small_ea 1 s2 = NONE"
    by (simp add: gated_signal_def get_entry_signal_def hurst_is_ready_def p2 hc Let_def)
  have en: "entry_step small_ea EURUSD (Timestamp 1 0) 0 1 s2 = Inr (s2, NONE, False)"
    by (simp add: entry_step_def g)
  have "\<exists>s. bar_step small_ea EURUSD one_bar 0 (initial_state small_ea EURUSD se) = Inr s"
    unfolding bar_step_def Let_def
    using se' sl xb xs en ps(2) s2_def
    by (simp add: one_bar_def bind_res_def initial_state_def
        s1_def[symmetric, unfolded initial_state_def, simplified])
  then show ?thesis
    using w by (simp add: state_after_def one_bar_def warmup_bars_def bind_res_def
        loop_body_Inr Let_def)
qed

text \<open>
  Claim C6. The open positions are never long and short at once. The run starts with
  no position; the stop loss check and the two signal exits only remove positions, the
  trailing stop changes no side, and the entry block adds a long position only when no
  short one is open and a short position only when no long one is open, because the
  entry signal is forced to NONE against an open position of the other side. So the
  positions are one-sided after every step of a bar, after every bar, and in every
  state that the run reaches.
\<close>

theorem positions_never_two_sided:
  "(state_after ea inst data k = Inr s \<longrightarrow> one_sided (positions s)) \<and>
   (one_sided (positions s0) \<and> bar_step ea inst data i s0 = Inr s1 \<longrightarrow> one_sided (positions s1)) \<and>
   (one_sided (positions s0) \<and> stop_loss_check inst d i lo hi s0 = Inr s2 \<longrightarrow>
      one_sided (positions s2)) \<and>
   (one_sided (positions s0) \<and> signal_exit_buy ea inst d i bar_close s0 = Inr s3 \<longrightarrow>
      one_sided (positions s3)) \<and>
   (one_sided (positions s0) \<and> signal_exit_sell ea inst d i bar_close s0 = Inr s4 \<longrightarrow>
      one_sided (positions s4)) \<and>
   (one_sided (positions s0) \<and> entry_step ea inst d i bar_close s0 = Inr (s5, sig, entered) \<longrightarrow>
      one_sided (positions s5)) \<and>
   (one_sided (positions s0) \<longrightarrow> one_sided (positions (trailing_stop ea i entered s0))) \<and>
   (gated_signal ea bar_close s0 = BUY \<longrightarrow>
      \<not> list_ex (\<lambda>p. ptype p = PT_SELL) (positions s0)) \<and>
   (gated_signal ea bar_close s0 = SELL \<longrightarrow>
      \<not> list_ex (\<lambda>p. ptype p = PT_BUY) (positions s0))"
proof -
  have run: "state_after ea inst data k = Inr s \<longrightarrow> one_sided (positions s)"
    using state_after_one_sided by blast
  have bar: "one_sided (positions s0) \<and> bar_step ea inst data i s0 = Inr s1 \<longrightarrow>
      one_sided (positions s1)"
    using bar_step_one_sided by blast
  have sl: "one_sided (positions s0) \<and> stop_loss_check inst d i lo hi s0 = Inr s2 \<longrightarrow>
      one_sided (positions s2)"
    using stop_loss_check_result[of inst d i lo hi s0] by (auto simp: one_sided_filter)
  have xb: "one_sided (positions s0) \<and> signal_exit_buy ea inst d i bar_close s0 = Inr s3 \<longrightarrow>
      one_sided (positions s3)"
    using signal_exit_buy_result[of ea inst d i bar_close s0] by (auto simp: one_sided_filter)
  have xs: "one_sided (positions s0) \<and> signal_exit_sell ea inst d i bar_close s0 = Inr s4 \<longrightarrow>
      one_sided (positions s4)"
    using signal_exit_sell_result[of ea inst d i bar_close s0] by (auto simp: one_sided_filter)
  have en: "one_sided (positions s0) \<and> entry_step ea inst d i bar_close s0 = Inr (s5, sig, entered) \<longrightarrow>
      one_sided (positions s5)"
    using entry_step_one_sided by blast
  have tr: "one_sided (positions s0) \<longrightarrow> one_sided (positions (trailing_stop ea i entered s0))"
    using trailing_stop_one_sided by blast
  have g: "(gated_signal ea bar_close s0 = BUY \<longrightarrow>
        \<not> list_ex (\<lambda>p. ptype p = PT_SELL) (positions s0)) \<and>
      (gated_signal ea bar_close s0 = SELL \<longrightarrow>
        \<not> list_ex (\<lambda>p. ptype p = PT_BUY) (positions s0))"
    using gated_signal_cases[of ea bar_close s0] by auto
  from run bar sl xb xs en tr g show ?thesis by blast
qed

text \<open>
  On the example state the raw entry signal of the bar is BUY while a short position
  is open: nothing is opened, and the positions stay one-sided. The second part is a
  run of one bar.
\<close>

theorem positions_never_two_sided_example:
  "(\<exists>s'. bar_step example_ea EURUSD example_bars 1 example_state = Inr s' \<and>
      get_entry_signal (signal_engine s') 12 = BUY \<and>
      map ptype (positions s') = [PT_SELL] \<and> signals (res s') = [NONE] \<and>
      one_sided (positions s')) \<and>
   (\<exists>s. state_after small_ea EURUSD one_bar 1 = Inr s \<and> one_sided (positions s))"
proof -
  from example_bar_step obtain s' where
    b: "bar_step example_ea EURUSD example_bars 1 example_state = Inr s'"
    and p: "positions s' = [example_short\<lparr> stop_loss := 11 \<rparr>]"
    and g: "get_entry_signal (signal_engine s') 12 = BUY" "signals (res s') = [NONE]"
    by blast
  have o: "one_sided (positions example_state)"
    by (simp add: one_sided_def example_state_def example_short_def)
  from positions_never_two_sided
    [where ?s0.0 = example_state and ?s1.0 = s' and ea = example_ea and inst = EURUSD
      and data = example_bars and i = 1] o b
  have "one_sided (positions s')" by blast
  moreover from small_run_state obtain s where
    r: "state_after small_ea EURUSD one_bar 1 = Inr s" by blast
  from positions_never_two_sided[where ea = small_ea and inst = EURUSD and data = one_bar
      and k = 1 and s = s] r
  have "one_sided (positions s)" by blast
  ultimately show ?thesis
    using b p g r by (auto simp: example_short_def)
qed

subsection \<open>The trailing stop\<close>

lemma stop_tightened_refl: "stop_tightened p p"
  by (simp add: stop_tightened_def)

lemma trail_position_tightened: "stop_tightened p (trail_position ea i tb ts p)"
  by (simp add: stop_tightened_def trail_position_def)

lemma trailing_stop_tightened:
  "list_all2 stop_tightened (positions s) (positions (trailing_stop ea i entered s))"
  by (simp add: trailing_stop_def Let_def list_all2_map2 list_all2_same
      trail_position_tightened stop_tightened_refl)

lemma bar_step_positions:
  assumes step: "bar_step ea inst data i s = Inr s'"
  shows "\<exists>kept cur new. subseq kept (positions s) \<and> positions s' = cur @ new \<and>
           list_all2 stop_tightened kept cur \<and>
           list_all (\<lambda>q. entry_bar_index q = i \<and> ticket q = next_ticket s) new"
proof -
  define d where "d = b_time (data ! i)"
  define bc where "bc = b_close (data ! i)"
  define s1 where "s1 = new_day_step d (s\<lparr> bars_since_close := bars_since_close s + 1 \<rparr>)"
  have p1: "positions s1 = positions s" "next_ticket s1 = next_ticket s"
    by (simp_all add: s1_def new_day_step_def Let_def)
  from step have len: "i < length data"
    by (simp add: bar_step_def split: if_splits)
  from step len obtain se where
    se: "on_new_bar (signal_engine s1) bc
           (b_close (data ! (if i = 0 then length data - 1 else i - 1))) = Inr se"
    unfolding bar_step_def Let_def s1_def d_def bc_def
    by (auto simp: bind_res_def split: sum.splits)
  define s2 where "s2 = s1\<lparr> signal_engine := se \<rparr>"
  obtain s3 where s3: "stop_loss_check inst d i (b_low (data ! i)) (b_high (data ! i)) s2 = Inr s3"
    and p3: "positions s3 = filter (\<lambda>p. \<not> sl_touched (b_low (data ! i)) (b_high (data ! i)) p) (positions s2)"
    and n3: "next_ticket s3 = next_ticket s2"
    using stop_loss_check_result[of inst d i "b_low (data ! i)" "b_high (data ! i)" s2] by simp
  obtain s4 Q4 where s4: "signal_exit_buy ea inst d i bc s3 = Inr s4"
    and p4: "positions s4 = filter Q4 (positions s3)" and n4: "next_ticket s4 = next_ticket s3"
    using signal_exit_buy_result[of ea inst d i bc s3] by auto
  obtain s5 Q5 where s5: "signal_exit_sell ea inst d i bc s4 = Inr s5"
    and p5: "positions s5 = filter Q5 (positions s4)" and n5: "next_ticket s5 = next_ticket s4"
    using signal_exit_sell_result[of ea inst d i bc s4] by auto
  from step len se s3 s4 s5 obtain s6 sig entered where
    s6: "entry_step ea inst d i bc s5 = Inr (s6, sig, entered)"
    and fin: "s' = record_bar d sig entered (update_equity ea inst bc (trailing_stop ea i entered s6))"
    unfolding bar_step_def Let_def
    by (auto simp: bind_res_def s1_def[symmetric] d_def[symmetric] bc_def[symmetric]
        s2_def[symmetric] split: sum.splits prod.splits)
  have sub: "subseq (positions s5) (positions s)"
  proof -
    have "subseq (positions s5) (positions s4)" by (simp add: p5)
    also have "subseq (positions s4) (positions s3)" by (simp add: p4)
    also have "subseq (positions s3) (positions s)" by (simp add: p3 s2_def p1)
    finally show ?thesis .
  qed
  have nt: "next_ticket s5 = next_ticket s" by (simp add: n5 n4 n3 s2_def p1)
  have ps': "positions s' = positions (trailing_stop ea i entered s6)"
    by (simp add: fin record_bar_def update_equity_def Let_def)
  note r = entry_step_result[OF s6]
  show ?thesis
  proof (cases entered)
    case False
    with r have "s6 = s5" by auto
    then have "list_all2 stop_tightened (positions s5) (positions s')"
      using trailing_stop_tightened[of s5 ea i entered] by (simp add: ps')
    with sub show ?thesis
      by (intro exI[of _ "positions s5"] exI[of _ "positions s'"] exI[of _ "[]"]) simp
  next
    case True
    with r obtain pos where s6': "positions s6 = positions s5 @ [pos]"
      and pos: "ticket pos = next_ticket s5" "entry_bar_index pos = i"
      by auto
    from True have "positions s' = positions s5 @ [pos]"
      by (simp add: ps' trailing_stop_def s6')
    moreover have "list_all2 stop_tightened (positions s5) (positions s5)"
      by (simp add: list_all2_same stop_tightened_refl)
    ultimately show ?thesis
      using sub pos nt
      by (intro exI[of _ "positions s5"] exI[of _ "positions s5"] exI[of _ "[pos]"]) simp
  qed
qed

lemma state_after_Suc:
  "state_after ea inst data (Suc k) =
     bind_res (state_after ea inst data k)
       (bar_step ea inst data (warmup_bars ea (length data) + k))"
proof (cases "data = []")
  case True
  then show ?thesis by (simp add: state_after_def bind_res_def)
next
  case False
  show ?thesis
  proof (cases "foldl feed_body (Inr (init_engine ea))
                  (warmup_feed (map b_close data) (warmup_bars ea (length data)))")
    case (Inl e)
    with False show ?thesis by (simp add: state_after_def bind_res_def Let_def)
  next
    case (Inr se)
    with False show ?thesis
      by (simp add: state_after_def bind_res_def Let_def loop_body_def)
  qed
qed

text \<open>
  Claim C7. Over one bar of the main loop, and so between any two consecutive bars of a
  run, the open positions afterwards are positions that were open before, in their
  order and each with a stop that has only tightened (a long position's stop has not
  decreased, a short position's stop has not increased, and a stop that was not
  positive has not moved), followed by the position that the bar has opened, if any.
  Nothing else of a position changes while it is open. The trailing stop itself
  tightens each single position in this sense.
\<close>

theorem stop_loss_only_tightens:
  "(bar_step ea inst data i s = Inr s' \<longrightarrow>
      (\<exists>kept cur new. subseq kept (positions s) \<and> positions s' = cur @ new \<and>
         list_all2 stop_tightened kept cur \<and>
         list_all (\<lambda>q. entry_bar_index q = i \<and> ticket q = next_ticket s) new)) \<and>
   (state_after ea inst data k = Inr s0 \<and> state_after ea inst data (Suc k) = Inr s1 \<longrightarrow>
      (\<exists>kept cur new. subseq kept (positions s0) \<and> positions s1 = cur @ new \<and>
         list_all2 stop_tightened kept cur \<and>
         list_all (\<lambda>q. entry_bar_index q = warmup_bars ea (length data) + k \<and>
                        ticket q = next_ticket s0) new)) \<and>
   stop_tightened p (trail_position ea i trail_buy trail_sell p) \<and>
   list_all2 stop_tightened (positions s) (positions (trailing_stop ea i entered s))"
proof -
  have a: "bar_step ea inst data i s = Inr s' \<longrightarrow>
      (\<exists>kept cur new. subseq kept (positions s) \<and> positions s' = cur @ new \<and>
         list_all2 stop_tightened kept cur \<and>
         list_all (\<lambda>q. entry_bar_index q = i \<and> ticket q = next_ticket s) new)"
    using bar_step_positions by blast
  have b: "state_after ea inst data k = Inr s0 \<and> state_after ea inst data (Suc k) = Inr s1 \<longrightarrow>
      (\<exists>kept cur new. subseq kept (positions s0) \<and> positions s1 = cur @ new \<and>
         list_all2 stop_tightened kept cur \<and>
         list_all (\<lambda>q. entry_bar_index q = warmup_bars ea (length data) + k \<and>
                        ticket q = next_ticket s0) new)"
  proof
    assume h: "state_after ea inst data k = Inr s0 \<and> state_after ea inst data (Suc k) = Inr s1"
    then have h0: "state_after ea inst data k = Inr s0"
      and h1: "state_after ea inst data (Suc k) = Inr s1" by simp_all
    from h1 have "bar_step ea inst data (warmup_bars ea (length data) + k) s0 = Inr s1"
      unfolding state_after_Suc h0 by (simp add: bind_res_def)
    from bar_step_positions[OF this] show "\<exists>kept cur new. subseq kept (positions s0) \<and>
         positions s1 = cur @ new \<and> list_all2 stop_tightened kept cur \<and>
         list_all (\<lambda>q. entry_bar_index q = warmup_bars ea (length data) + k \<and>
                        ticket q = next_ticket s0) new" .
  qed
  from a b trail_position_tightened[of p ea i trail_buy trail_sell]
    trailing_stop_tightened[of s ea i entered]
  show ?thesis by blast
qed

text \<open>
  On the example state the bar moves the stop of the open short position from 20 down
  to the trail value 11.
\<close>

theorem stop_loss_only_tightens_example:
  "\<exists>s'. bar_step example_ea EURUSD example_bars 1 example_state = Inr s' \<and>
     map stop_loss (positions example_state) = [20] \<and>
     map stop_loss (positions s') = [11] \<and>
     (\<exists>kept cur new. subseq kept (positions example_state) \<and> positions s' = cur @ new \<and>
        list_all2 stop_tightened kept cur \<and>
        list_all (\<lambda>q. entry_bar_index q = 1 \<and> ticket q = next_ticket example_state) new)"
proof -
  from example_bar_step obtain s' where
    b: "bar_step example_ea EURUSD example_bars 1 example_state = Inr s'"
    and p: "positions s' = [example_short\<lparr> stop_loss := 11 \<rparr>]"
    by blast
  from stop_loss_only_tightens[where ea = example_ea and inst = EURUSD and data = example_bars
      and i = 1 and s = example_state and s' = s'] b
  have t: "\<exists>kept cur new. subseq kept (positions example_state) \<and> positions s' = cur @ new \<and>
        list_all2 stop_tightened kept cur \<and>
        list_all (\<lambda>q. entry_bar_index q = 1 \<and> ticket q = next_ticket example_state) new"
    by blast
  have m0: "map stop_loss (positions example_state) = [20]"
    by (simp add: example_state_def example_short_def)
  have m1: "map stop_loss (positions s') = [11]" by (simp add: p)
  show ?thesis
    by (rule exI[of _ s']) (intro conjI b m0 m1 t)
qed

subsection \<open>The warmup and the length of the records\<close>





lemma warmup_feed_length:
  assumes "max (hurst_period ea) (vol_hist_period ea) + 50 \<le> n"
  shows "length (warmup_feed closes (warmup_bars ea n)) = warmup_bars ea n"
proof -
  have "1 \<le> warmup_bars ea n" using assms by (simp add: warmup_bars_def)
  then show ?thesis by (simp add: warmup_feed_def)
qed













end
